theory Spec2Isabelle
  imports Main "HOL-Library.Sublist"
begin

section \<open>Python values\<close>

text \<open>
  The analyzer handles decoded JSON and YAML documents (\<^verbatim>\<open>dict[str, Any]\<close>).
  Numbers are integers; mappings keep their entries as an association list.
\<close>

datatype json =
    JNull
  | JBool bool
  | JInt int
  | JStr string
  | JList "json list"
  | JDict "(string \<times> json) list"

type_synonym dict = "(string \<times> json) list"

text \<open>An exception, with the text that \<^verbatim>\<open>str(e)\<close> gives.\<close>

datatype exn = Exn string

fun str_exn :: "exn \<Rightarrow> string" where
  "str_exn (Exn m) = m"

text \<open>Truthiness, as \<^verbatim>\<open>if x:\<close> and \<^verbatim>\<open>x or y\<close> test it.\<close>

fun truthy :: "json \<Rightarrow> bool" where
  "truthy JNull = False"
| "truthy (JBool b) = b"
| "truthy (JInt i) = (i \<noteq> 0)"
| "truthy (JStr s) = (s \<noteq> [])"
| "truthy (JList xs) = (xs \<noteq> [])"
| "truthy (JDict kvs) = (kvs \<noteq> [])"

text \<open>Truthiness of a \<^verbatim>\<open>str | None\<close>: neither \<^verbatim>\<open>None\<close> nor the empty string.\<close>

fun provided :: "string option \<Rightarrow> bool" where
  "provided None = False"
| "provided (Some s) = (s \<noteq> [])"

text \<open>\<^verbatim>\<open>d.get(k)\<close> on a mapping: \<^verbatim>\<open>None\<close> for a missing key.\<close>

definition dget :: "dict \<Rightarrow> string \<Rightarrow> json" where
  "dget d k = (case map_of d k of None \<Rightarrow> JNull | Some v \<Rightarrow> v)"

text \<open>\<^verbatim>\<open>d.get(k, default)\<close>.\<close>

definition dget_default :: "dict \<Rightarrow> string \<Rightarrow> json \<Rightarrow> json" where
  "dget_default d k dflt = (case map_of d k of None \<Rightarrow> dflt | Some v \<Rightarrow> v)"

text \<open>\<^verbatim>\<open>x.get(k)\<close> on any value: only a mapping has the method.\<close>

fun py_get :: "json \<Rightarrow> string \<Rightarrow> exn + json" where
  "py_get (JDict d) k = Inr (dget d k)"
| "py_get JNull k = Inl (Exn ''AttributeError: NoneType object has no attribute get'')"
| "py_get (JBool b) k = Inl (Exn ''AttributeError: bool object has no attribute get'')"
| "py_get (JInt i) k = Inl (Exn ''AttributeError: int object has no attribute get'')"
| "py_get (JStr s) k = Inl (Exn ''AttributeError: str object has no attribute get'')"
| "py_get (JList xs) k = Inl (Exn ''AttributeError: list object has no attribute get'')"

text \<open>
  \<^verbatim>\<open>for x in v\<close>: a list yields its elements, a mapping its keys, a string its
  characters; the other values are not iterable.
\<close>

fun py_iter :: "json \<Rightarrow> exn + json list" where
  "py_iter (JList xs) = Inr xs"
| "py_iter (JDict d) = Inr (map (\<lambda>kv. JStr (fst kv)) d)"
| "py_iter (JStr s) = Inr (map (\<lambda>c. JStr [c]) s)"
| "py_iter JNull = Inl (Exn ''TypeError: NoneType object is not iterable'')"
| "py_iter (JBool b) = Inl (Exn ''TypeError: bool object is not iterable'')"
| "py_iter (JInt i) = Inl (Exn ''TypeError: int object is not iterable'')"

text \<open>A list comprehension whose element expression may raise: the first exception ends it.\<close>

fun map_exn :: "('a \<Rightarrow> exn + 'b) \<Rightarrow> 'a list \<Rightarrow> exn + 'b list" where
  "map_exn f [] = Inr []"
| "map_exn f (x # xs) =
     (case f x of
        Inl e \<Rightarrow> Inl e
      | Inr y \<Rightarrow> (case map_exn f xs of Inl e \<Rightarrow> Inl e | Inr ys \<Rightarrow> Inr (y # ys)))"

text \<open>Sequencing of two steps that may raise.\<close>

definition then_exn :: "exn + 'a \<Rightarrow> ('a \<Rightarrow> exn + 'b) \<Rightarrow> exn + 'b" where
  "then_exn r f = (case r of Inl e \<Rightarrow> Inl e | Inr x \<Rightarrow> f x)"

section \<open>Data model\<close>

record repo_info =
  owner :: string
  repo :: string
  pr_number :: "int option"
  branch :: "string option"

definition full_name :: "repo_info \<Rightarrow> string" where
  "full_name ri = owner ri @ ''/'' @ repo ri"

text \<open>
  A violation as the analyzer sees it: the validated model, and the \<^verbatim>\<open>pr_number\<close>
  attribute that the analyzer assigns.
\<close>

record violation =
  v_model :: json
  v_pr_number :: json

text \<open>
  The event handed to the engine. The keys \<^verbatim>\<open>organization\<close>, \<^verbatim>\<open>event_id\<close>,
  \<^verbatim>\<open>timestamp\<close>, \<^verbatim>\<open>installation\<close> and \<^verbatim>\<open>github_client\<close> hold constants and are
  left out; a key that the code sets only for a truthy PR number is an option.
\<close>

record event_data =
  pull_request_details :: json
  triggering_user :: json
  repository :: string
  reviews :: "json option"
  files :: "json option"
  changed_files :: "dict list option"
  codeowners_content :: "string option"

text \<open>One entry of \<^verbatim>\<open>prs_analyzed\<close>; the single-PR path sets no \<^verbatim>\<open>violations\<close> key.\<close>

record summary =
  sm_number :: json
  sm_title :: json
  sm_violations_count :: nat
  sm_violations :: "json list option"
  sm_error :: "string option"


record analysis_result =
  success :: bool
  violations :: "violation list"
  rules_loaded :: nat
  processing_time_ms :: int
  error :: "string option"
  res_repo_info :: "repo_info option"
  pr_data :: "json option"
  prs_analyzed :: "summary list"

section \<open>The outside world\<close>

text \<open>
  Every call that leaves the analyzer is recorded, in order. A pull-request number in an
  endpoint is the value that the f-string formats into the URL.
\<close>

datatype endpoint =
    PullEndpoint string json
  | ReviewsEndpoint string json
  | FilesEndpoint string json

datatype call =
    GetRepository string
  | GetFileContent string string
  | ListPullRequests string int
  | FetchAllPullRequests string int
  | GetAuthHeaders
  | GetSession
  | SessionGet endpoint
  | LocalRulesExists
  | LocalRulesReadText
  | EngineExecute

record 'w st =
  trace :: "call list"
  world :: 'w

type_synonym ('a, 'w) io = "'w st \<Rightarrow> (exn + 'a) \<times> 'w st"

text \<open>What the engine agent's result amounts to for the analyzer.\<close>

datatype engine_out =
    NoEvaluationResult
  | NoViolationsAttr
  | RawViolations "json list"

text \<open>
  The collaborators that are not part of the analyzer: the GitHub client, the engine
  agent, the host's file system and clock, the YAML library, the rule loader and the
  violation model. Each call into the world may change it and may raise.
\<close>

record ('w, 'r) env =
  gh_get_repository :: "string \<Rightarrow> string option \<Rightarrow> 'w \<Rightarrow> (exn + json) \<times> 'w"
  gh_get_file_content :: "string \<Rightarrow> string \<Rightarrow> string option \<Rightarrow> 'w \<Rightarrow> (exn + string option) \<times> 'w"
  gh_list_pull_requests :: "string \<Rightarrow> string option \<Rightarrow> int \<Rightarrow> 'w \<Rightarrow> (exn + dict list) \<times> 'w"
  gh_fetch_all_pull_requests :: "string \<Rightarrow> string option \<Rightarrow> int \<Rightarrow> 'w \<Rightarrow> (exn + dict list) \<times> 'w"
  gh_get_auth_headers :: "string option \<Rightarrow> 'w \<Rightarrow> (exn + json) \<times> 'w"
  gh_get_session :: "'w \<Rightarrow> (exn + unit) \<times> 'w"
  gh_session_get :: "endpoint \<Rightarrow> json \<Rightarrow> 'w \<Rightarrow> (exn + int \<times> (exn + json)) \<times> 'w"
  local_rules_exists :: "'w \<Rightarrow> (exn + bool) \<times> 'w"
  local_rules_read_text :: "'w \<Rightarrow> (exn + string) \<times> 'w"
  engine_execute :: "event_data \<Rightarrow> 'r list \<Rightarrow> 'w \<Rightarrow> (exn + engine_out) \<times> 'w"
  clock_ms :: "'w \<Rightarrow> int"
  rules_file_path :: string
  yaml_safe_load :: "string \<Rightarrow> exn + json"
  parse_rule :: "dict \<Rightarrow> exn + 'r option"
  model_validate :: "json \<Rightarrow> exn + json"
  model_dump :: "violation \<Rightarrow> json"

subsection \<open>Sequencing, raising and catching\<close>

definition ret :: "'a \<Rightarrow> ('a, 'w) io" where
  "ret x s = (Inr x, s)"

definition lift :: "exn + 'a \<Rightarrow> ('a, 'w) io" where
  "lift r s = (r, s)"

definition bind :: "('a, 'w) io \<Rightarrow> ('a \<Rightarrow> ('b, 'w) io) \<Rightarrow> ('b, 'w) io" where
  "bind m f s = (case m s of (Inl e, s') \<Rightarrow> (Inl e, s') | (Inr x, s') \<Rightarrow> f x s')"

text \<open>\<^verbatim>\<open>try: m except Exception as e: h(e)\<close>.\<close>

definition catch :: "('a, 'w) io \<Rightarrow> (exn \<Rightarrow> ('a, 'w) io) \<Rightarrow> ('a, 'w) io" where
  "catch m h s = (case m s of (Inl e, s') \<Rightarrow> h e s' | (Inr x, s') \<Rightarrow> (Inr x, s'))"

text \<open>A call into the world: it is recorded, and the world moves on.\<close>

definition extern :: "call \<Rightarrow> ('w \<Rightarrow> (exn + 'a) \<times> 'w) \<Rightarrow> ('a, 'w) io" where
  "extern c f s =
     (case f (world s) of (r, w') \<Rightarrow> (r, \<lparr>trace = trace s @ [c], world = w'\<rparr>))"

section \<open>Fetching\<close>

text \<open>
  The three HTTP fetches of the analyzer share one shape: the headers, the session, the GET,
  the status test and the decoded body. \<open>dflt\<close> is what a refused or failed fetch gives.
\<close>

definition http_fetch :: "('w, 'r) env \<Rightarrow> endpoint \<Rightarrow> string option \<Rightarrow> json \<Rightarrow> (json, 'w) io" where
  "http_fetch E ep github_token dflt =
     catch
       (bind (extern GetAuthHeaders (gh_get_auth_headers E github_token)) (\<lambda>headers.
          if \<not> truthy headers then ret dflt
          else
            bind (extern GetSession (gh_get_session E)) (\<lambda>session.
            bind (extern (SessionGet ep) (gh_session_get E ep headers)) (\<lambda>response.
              if fst response = 200 then lift (snd response) else ret dflt))))
       (\<lambda>e. ret dflt)"

definition fetch_pr_data :: "('w, 'r) env \<Rightarrow> string \<Rightarrow> int \<Rightarrow> string option \<Rightarrow> (json, 'w) io" where
  "fetch_pr_data E repo_full_name n github_token =
     http_fetch E (PullEndpoint repo_full_name (JInt n)) github_token JNull"

definition fetch_pr_reviews :: "('w, 'r) env \<Rightarrow> string \<Rightarrow> json \<Rightarrow> string option \<Rightarrow> (json, 'w) io" where
  "fetch_pr_reviews E repo_full_name n github_token =
     http_fetch E (ReviewsEndpoint repo_full_name n) github_token (JList [])"

definition fetch_pr_files :: "('w, 'r) env \<Rightarrow> string \<Rightarrow> json \<Rightarrow> string option \<Rightarrow> (json, 'w) io" where
  "fetch_pr_files E repo_full_name n github_token =
     http_fetch E (FilesEndpoint repo_full_name n) github_token (JList [])"

definition fetch_open_prs :: "('w, 'r) env \<Rightarrow> string \<Rightarrow> string option \<Rightarrow> int \<Rightarrow> (dict list, 'w) io" where
  "fetch_open_prs E repo_full_name github_token limit =
     catch
       (extern (ListPullRequests repo_full_name limit)
          (gh_list_pull_requests E repo_full_name github_token limit))
       (\<lambda>e. ret [])"

definition fetch_all_prs_paginated :: "('w, 'r) env \<Rightarrow> string \<Rightarrow> string option \<Rightarrow> int \<Rightarrow> (dict list, 'w) io" where
  "fetch_all_prs_paginated E repo_full_name github_token limit =
     catch
       (extern (FetchAllPullRequests repo_full_name limit)
          (gh_fetch_all_pull_requests E repo_full_name github_token limit))
       (\<lambda>e. ret [])"

definition codeowners_paths :: "string list" where
  "codeowners_paths = [''.github/CODEOWNERS'', ''CODEOWNERS'', ''docs/CODEOWNERS'']"

text \<open>One round of the probing loop: the content, when this path has some.\<close>

definition probe_codeowners :: "('w, 'r) env \<Rightarrow> string \<Rightarrow> string option \<Rightarrow> string \<Rightarrow> (string option, 'w) io" where
  "probe_codeowners E repo_full_name github_token path =
     catch
       (bind (extern (GetFileContent repo_full_name path)
                (gh_get_file_content E repo_full_name path github_token))
          (\<lambda>content. ret (if provided content then content else None)))
       (\<lambda>e. ret None)"

fun fetch_codeowners_from ::
  "('w, 'r) env \<Rightarrow> string \<Rightarrow> string option \<Rightarrow> string list \<Rightarrow> (string option, 'w) io" where
  "fetch_codeowners_from E repo_full_name github_token [] s = (Inr None, s)"
| "fetch_codeowners_from E repo_full_name github_token (path # paths) s =
     (case probe_codeowners E repo_full_name github_token path s of
        (Inr (Some content), s') \<Rightarrow> (Inr (Some content), s')
      | (_, s') \<Rightarrow> fetch_codeowners_from E repo_full_name github_token paths s')"

definition fetch_codeowners :: "('w, 'r) env \<Rightarrow> string \<Rightarrow> string option \<Rightarrow> (string option, 'w) io" where
  "fetch_codeowners E repo_full_name github_token =
     fetch_codeowners_from E repo_full_name github_token codeowners_paths"

section \<open>Building the event\<close>

text \<open>The projection of one changed file: four \<^verbatim>\<open>f.get\<close> calls.\<close>

definition changed_file :: "json \<Rightarrow> exn + dict" where
  "changed_file f =
     then_exn (py_get f ''filename'') (\<lambda>filename.
     then_exn (py_get f ''status'') (\<lambda>status.
     then_exn (py_get f ''additions'') (\<lambda>additions.
     then_exn (py_get f ''deletions'') (\<lambda>deletions.
       Inr [(''filename'', filename), (''status'', status),
            (''additions'', additions), (''deletions'', deletions)]))))"

definition or_empty_list :: "json \<Rightarrow> json" where
  "or_empty_list v = (if truthy v then v else JList [])"

definition or_empty_dict :: "json \<Rightarrow> json" where
  "or_empty_dict v = (if truthy v then v else JDict [])"

definition build_event_data :: "('w, 'r) env \<Rightarrow> string \<Rightarrow> json \<Rightarrow> string option \<Rightarrow> (event_data, 'w) io" where
  "build_event_data E repo_full_name prd github_token =
     bind (lift (py_get prd ''user'')) (\<lambda>user.
     bind (lift (py_get (or_empty_dict user) ''login'')) (\<lambda>login.
     bind (lift (py_get prd ''number'')) (\<lambda>n.
       if truthy n then
         bind (fetch_pr_reviews E repo_full_name n github_token) (\<lambda>rv.
         bind (fetch_pr_files E repo_full_name n github_token) (\<lambda>fs.
         bind (lift (py_iter (or_empty_list fs))) (\<lambda>items.
         bind (lift (map_exn changed_file items)) (\<lambda>changed.
         bind (fetch_codeowners E repo_full_name github_token) (\<lambda>co.
           ret \<lparr>pull_request_details = prd, triggering_user = login,
                repository = repo_full_name,
                reviews = Some (or_empty_list rv), files = Some (or_empty_list fs),
                changed_files = Some changed,
                codeowners_content = (if provided co then co else None)\<rparr>)))))
       else
         ret \<lparr>pull_request_details = prd, triggering_user = login,
              repository = repo_full_name,
              reviews = None, files = None, changed_files = None,
              codeowners_content = None\<rparr>)))"

section \<open>Evaluating the rules\<close>

definition evaluate_rules :: "('w, 'r) env \<Rightarrow> 'r list \<Rightarrow> event_data \<Rightarrow> (violation list, 'w) io" where
  "evaluate_rules E rules ev =
     catch
       (bind (lift (py_get (pull_request_details ev) ''number'')) (\<lambda>n.
        bind (extern EngineExecute (engine_execute E ev rules)) (\<lambda>out.
          case out of
            RawViolations raws \<Rightarrow>
              bind (lift (map_exn (model_validate E) raws)) (\<lambda>ms.
                ret (map (\<lambda>m. \<lparr>v_model = m, v_pr_number = n\<rparr>) ms))
          | _ \<Rightarrow> ret [])))
       (\<lambda>e. ret [])"

section \<open>Resolving the rules\<close>

text \<open>One entry of the \<^verbatim>\<open>rules\<close> sequence: the rules it adds to the result.\<close>

definition parse_entry :: "('w, 'r) env \<Rightarrow> json \<Rightarrow> 'r list" where
  "parse_entry E rule_data =
     (case rule_data of
        JDict d \<Rightarrow> (case parse_rule E d of Inr (Some rule) \<Rightarrow> [rule] | _ \<Rightarrow> [])
      | _ \<Rightarrow> [])"

fun parse_entries :: "('w, 'r) env \<Rightarrow> 'r list \<Rightarrow> json list \<Rightarrow> 'r list" where
  "parse_entries E rules [] = rules"
| "parse_entries E rules (rule_data # rest) =
     parse_entries E (rules @ parse_entry E rule_data) rest"

definition parse_rules_from_yaml :: "('w, 'r) env \<Rightarrow> string \<Rightarrow> 'r list" where
  "parse_rules_from_yaml E yaml_content =
     (case yaml_safe_load E yaml_content of
        Inl e \<Rightarrow> []
      | Inr (JDict d) \<Rightarrow>
          (case map_of d ''rules'' of
             None \<Rightarrow> []
           | Some v \<Rightarrow> (case py_iter v of Inl e \<Rightarrow> [] | Inr items \<Rightarrow> parse_entries E [] items))
      | Inr _ \<Rightarrow> [])"

text \<open>The repository step of the chain: the content of the rules file, when there is some.\<close>

definition repository_rules_content :: "('w, 'r) env \<Rightarrow> string \<Rightarrow> string option \<Rightarrow> (string option, 'w) io" where
  "repository_rules_content E repo_full_name github_token =
     catch
       (bind (extern (GetFileContent repo_full_name (rules_file_path E))
                (gh_get_file_content E repo_full_name (rules_file_path E) github_token))
          (\<lambda>content. ret (if provided content then content else None)))
       (\<lambda>e. ret None)"

definition local_rules :: "('w, 'r) env \<Rightarrow> ('r list, 'w) io" where
  "local_rules E =
     bind (extern LocalRulesExists (local_rules_exists E)) (\<lambda>ex.
       if ex then
         bind (extern LocalRulesReadText (local_rules_read_text E)) (\<lambda>content.
           ret (parse_rules_from_yaml E content))
       else ret [])"

definition repository_or_local_rules :: "('w, 'r) env \<Rightarrow> string \<Rightarrow> string option \<Rightarrow> ('r list, 'w) io" where
  "repository_or_local_rules E repo_full_name github_token =
     bind (repository_rules_content E repo_full_name github_token) (\<lambda>c.
       case c of
         Some content \<Rightarrow> ret (parse_rules_from_yaml E content)
       | None \<Rightarrow> local_rules E)"

definition load_rules :: "('w, 'r) env \<Rightarrow> string \<Rightarrow> string option \<Rightarrow> string option \<Rightarrow> ('r list, 'w) io" where
  "load_rules E repo_full_name rules_yaml github_token =
     (case rules_yaml of
        Some text \<Rightarrow>
          if text \<noteq> [] then ret (parse_rules_from_yaml E text)
          else repository_or_local_rules E repo_full_name github_token
      | None \<Rightarrow> repository_or_local_rules E repo_full_name github_token)"

section \<open>The analysis\<close>

text \<open>\<^verbatim>\<open>int((time.time() - start_time) * 1000)\<close>, with the clock read in milliseconds.\<close>

definition elapsed :: "('w, 'r) env \<Rightarrow> int \<Rightarrow> 'w st \<Rightarrow> int" where
  "elapsed E start_time s = clock_ms E (world s) - start_time"

text \<open>A result of the failure paths: no violations, no PR data, no summaries.\<close>

definition failure :: "nat \<Rightarrow> int \<Rightarrow> string \<Rightarrow> repo_info \<Rightarrow> analysis_result" where
  "failure n ms msg ri =
     \<lparr>success = False, violations = [], rules_loaded = n, processing_time_ms = ms,
      error = Some msg, res_repo_info = Some ri, pr_data = None, prs_analyzed = []\<rparr>"

text \<open>The decimal digits of a number, for the f-string of the PR-not-found message.\<close>

fun digits_of :: "nat \<Rightarrow> string" where
  "digits_of n =
     (if n < 10 then [char_of (48 + n)] else digits_of (n div 10) @ [char_of (48 + n mod 10)])"

definition str_int :: "int \<Rightarrow> string" where
  "str_int i = (if i < 0 then ''-'' @ digits_of (nat (- i)) else digits_of (nat i))"

definition analyze_single_pr ::
  "('w, 'r) env \<Rightarrow> repo_info \<Rightarrow> int \<Rightarrow> 'r list \<Rightarrow> nat \<Rightarrow> string option \<Rightarrow> int \<Rightarrow> (analysis_result, 'w) io" where
  "analyze_single_pr E ri n rules n_rules github_token start_time =
     bind (fetch_pr_data E (full_name ri) n github_token) (\<lambda>prd.
       if \<not> truthy prd then
         (\<lambda>s. (Inr (failure n_rules (elapsed E start_time s)
                       (''PR #'' @ str_int n @ '' not found or access denied'') ri), s))
       else
         bind (build_event_data E (full_name ri) prd github_token) (\<lambda>ev.
         bind (evaluate_rules E rules ev) (\<lambda>vs.
         bind (lift (py_get prd ''number'')) (\<lambda>number.
         bind (lift (py_get prd ''title'')) (\<lambda>title.
           (\<lambda>s. (Inr \<lparr>success = True, violations = vs, rules_loaded = n_rules,
                       processing_time_ms = elapsed E start_time s, error = None,
                       res_repo_info = Some ri, pr_data = Some prd,
                       prs_analyzed =
                         [\<lparr>sm_number = number, sm_title = title,
                           sm_violations_count = length vs,
                           sm_violations = None, sm_error = None\<rparr>]\<rparr>, s)))))))"

text \<open>
  One round of the batch loop: the two accumulators \<^verbatim>\<open>all_violations\<close> and
  \<^verbatim>\<open>prs_analyzed\<close> after the \<^verbatim>\<open>try\<close> block or its handler.
\<close>

definition analyze_pr ::
  "('w, 'r) env \<Rightarrow> string \<Rightarrow> 'r list \<Rightarrow> string option \<Rightarrow> dict \<Rightarrow>
   violation list \<times> summary list \<Rightarrow> 'w st \<Rightarrow> (violation list \<times> summary list) \<times> 'w st" where
  "analyze_pr E repo_full_name rules github_token pr acc s =
     (let number = dget pr ''number'';
          title = dget_default pr ''title'' (JStr [])
      in
      case bind (build_event_data E repo_full_name (JDict pr) github_token)
                (evaluate_rules E rules) s of
        (Inr vs, s') \<Rightarrow>
          ((fst acc @ vs,
            snd acc @ [\<lparr>sm_number = number, sm_title = title,
                        sm_violations_count = length vs,
                        sm_violations = Some (map (model_dump E) vs), sm_error = None\<rparr>]), s')
      | (Inl e, s') \<Rightarrow>
          ((fst acc,
            snd acc @ [\<lparr>sm_number = number, sm_title = title,
                        sm_violations_count = 0,
                        sm_violations = Some [], sm_error = Some (str_exn e)\<rparr>]), s'))"

fun analyze_prs ::
  "('w, 'r) env \<Rightarrow> string \<Rightarrow> 'r list \<Rightarrow> string option \<Rightarrow> dict list \<Rightarrow>
   violation list \<times> summary list \<Rightarrow> 'w st \<Rightarrow> (violation list \<times> summary list) \<times> 'w st" where
  "analyze_prs E repo_full_name rules github_token [] acc s = (acc, s)"
| "analyze_prs E repo_full_name rules github_token (pr # prs) acc s =
     (case analyze_pr E repo_full_name rules github_token pr acc s of
        (acc', s') \<Rightarrow> analyze_prs E repo_full_name rules github_token prs acc' s')"

text \<open>The choice of the fetch: paginated above 20, one page otherwise.\<close>

definition fetch_prs :: "('w, 'r) env \<Rightarrow> string \<Rightarrow> string option \<Rightarrow> int \<Rightarrow> (dict list, 'w) io" where
  "fetch_prs E repo_full_name github_token max_prs =
     (if max_prs > 20 then fetch_all_prs_paginated E repo_full_name github_token max_prs
      else fetch_open_prs E repo_full_name github_token max_prs)"

definition analyze_latest_prs ::
  "('w, 'r) env \<Rightarrow> repo_info \<Rightarrow> 'r list \<Rightarrow> nat \<Rightarrow> string option \<Rightarrow> int \<Rightarrow> int \<Rightarrow> bool \<Rightarrow>
   (analysis_result, 'w) io" where
  "analyze_latest_prs E ri rules n_rules github_token max_prs start_time batch_mode =
     bind (fetch_prs E (full_name ri) github_token max_prs) (\<lambda>prs.
       case prs of
         [] \<Rightarrow>
           (\<lambda>s. (Inr (failure n_rules (elapsed E start_time s)
                         ''No open pull requests found in this repository.'' ri), s))
       | first # _ \<Rightarrow>
           (\<lambda>s. case analyze_prs E (full_name ri) rules github_token prs ([], []) s of
                  ((all_violations, summaries), s') \<Rightarrow>
                    (Inr \<lparr>success = True, violations = all_violations, rules_loaded = n_rules,
                          processing_time_ms = elapsed E start_time s', error = None,
                          res_repo_info = Some ri, pr_data = Some (JDict first),
                          prs_analyzed = summaries\<rparr>, s')))"

definition rate_limit_hint :: string where
  "rate_limit_hint =
     ''. Note: GitHub API has a rate limit of 60 req/hr for anonymous access. '' @
     ''If you're seeing this frequently, consider adding a GitHub Personal Access Token '' @
     ''for higher limits (5,000 req/hr).''"

definition repository_not_found_msg :: "repo_info \<Rightarrow> string option \<Rightarrow> string" where
  "repository_not_found_msg ri github_token =
     ''Repository not found or access denied: '' @ full_name ri @
     (if \<not> provided github_token then rate_limit_hint else [])"

definition no_rules_msg :: string where
  "no_rules_msg = ''No rules found. Please provide rules or ensure .watchflow/rules.yaml exists.''"

text \<open>\<^verbatim>\<open>if pr_number:\<close> takes the single-PR path for a number other than 0.\<close>

definition target_pr :: "int option \<Rightarrow> int option" where
  "target_pr pr_num = (case pr_num of None \<Rightarrow> None | Some n \<Rightarrow> if n \<noteq> 0 then Some n else None)"

text \<open>The body of the \<^verbatim>\<open>try\<close> block of \<^verbatim>\<open>analyze\<close>.\<close>

definition analyze_body ::
  "('w, 'r) env \<Rightarrow> repo_info \<Rightarrow> int option \<Rightarrow> string option \<Rightarrow> string option \<Rightarrow> int \<Rightarrow> bool \<Rightarrow>
   int \<Rightarrow> (analysis_result, 'w) io" where
  "analyze_body E ri pr_num rules_yaml github_token max_prs batch_mode start_time =
     bind (extern (GetRepository (full_name ri)) (gh_get_repository E (full_name ri) github_token))
       (\<lambda>repo_data.
       if \<not> truthy repo_data then
         (\<lambda>s. (Inr (failure 0 (elapsed E start_time s)
                       (repository_not_found_msg ri github_token) ri), s))
       else
         bind (load_rules E (full_name ri) rules_yaml github_token) (\<lambda>rules.
           if rules = [] then
             (\<lambda>s. (Inr (failure 0 (elapsed E start_time s) no_rules_msg ri), s))
           else
             (case target_pr pr_num of
                Some n \<Rightarrow>
                  analyze_single_pr E ri n rules (length rules) github_token start_time
              | None \<Rightarrow>
                  analyze_latest_prs E ri rules (length rules) github_token max_prs
                    start_time batch_mode)))"

definition analyze ::
  "('w, 'r) env \<Rightarrow> repo_info \<Rightarrow> int option \<Rightarrow> string option \<Rightarrow> string option \<Rightarrow> int \<Rightarrow> bool \<Rightarrow>
   'w st \<Rightarrow> analysis_result \<times> 'w st" where
  "analyze E ri pr_num rules_yaml github_token max_prs batch_mode s =
     (let start_time = clock_ms E (world s);
          pr_num' = (case pr_num of None \<Rightarrow> pr_number ri | Some n \<Rightarrow> Some n)
      in
      case analyze_body E ri pr_num' rules_yaml github_token max_prs batch_mode start_time s of
        (Inr result, s') \<Rightarrow> (result, s')
      | (Inl e, s') \<Rightarrow> (failure 0 (elapsed E start_time s') (str_exn e) ri, s'))"

section \<open>Repository references\<close>

subsection \<open>Regular expressions\<close>

text \<open>
  The fragment of Python's \<^verbatim>\<open>re\<close> that the four patterns use. A match state is the
  position, the text from there on, and the groups captured so far (the newest first).
  \<open>ms r x\<close> lists the states that \<open>r\<close> can reach from \<open>x\<close>, in the order in which the
  backtracking matcher tries them; the match is the first one.
\<close>

datatype re =
    Lit string
  | Plus "char \<Rightarrow> bool"
  | PlusLazy "char \<Rightarrow> bool"
  | Opt re
  | Seq re re
  | Alt re re
  | Grp string re
  | Bos
  | Eos

type_synonym mstate = "nat \<times> string \<times> (string \<times> string) list"

fun ms :: "re \<Rightarrow> mstate \<Rightarrow> mstate list" where
  "ms (Lit l) (p, s, c) =
     (if prefix l s then [(p + length l, drop (length l) s, c)] else [])"
| "ms (Plus P) (p, s, c) =
     map (\<lambda>k. (p + k, drop k s, c)) (rev [1..<Suc (length (takeWhile P s))])"
| "ms (PlusLazy P) (p, s, c) =
     map (\<lambda>k. (p + k, drop k s, c)) [1..<Suc (length (takeWhile P s))]"
| "ms (Opt r) x = ms r x @ [x]"
| "ms (Seq r1 r2) x = concat (map (ms r2) (ms r1 x))"
| "ms (Alt r1 r2) x = ms r1 x @ ms r2 x"
| "ms (Grp name r) (p, s, c) =
     map (\<lambda>y. (fst y, fst (snd y), (name, take (fst y - p) s) # snd (snd y))) (ms r (p, s, c))"
| "ms Bos (p, s, c) = (if p = 0 then [(p, s, c)] else [])"
| "ms Eos (p, s, c) = (if s = [] \<or> s = [CHR 0x0A] then [(p, s, c)] else [])"

fun seqs :: "re list \<Rightarrow> re" where
  "seqs [] = Lit []"
| "seqs [r] = r"
| "seqs (r # rs) = Seq r (seqs rs)"

text \<open>\<^verbatim>\<open>pattern.match(url)\<close>: the groups of the first match from the start, if any.\<close>

definition re_match :: "re \<Rightarrow> string \<Rightarrow> (string \<times> string) list option" where
  "re_match r url = (case ms r (0, url, []) of [] \<Rightarrow> None | x # _ \<Rightarrow> Some (snd (snd x)))"

definition group :: "(string \<times> string) list \<Rightarrow> string \<Rightarrow> string option" where
  "group m name = map_of m name"

text \<open>A group that takes part in every match of its pattern.\<close>

definition group_str :: "(string \<times> string) list \<Rightarrow> string \<Rightarrow> string" where
  "group_str m name = (case map_of m name of None \<Rightarrow> [] | Some v \<Rightarrow> v)"

definition not_slash :: "char \<Rightarrow> bool" where
  "not_slash c = (c \<noteq> CHR ''/'')"

definition digit_char :: "char \<Rightarrow> bool" where
  "digit_char c = ((48::nat) \<le> of_char c \<and> of_char c \<le> (57::nat))"

definition alnum_char :: "char \<Rightarrow> bool" where
  "alnum_char c =
     (((97::nat) \<le> of_char c \<and> of_char c \<le> (122::nat)) \<or>
      ((65::nat) \<le> of_char c \<and> of_char c \<le> (90::nat)) \<or> digit_char c)"

definition short_owner_char :: "char \<Rightarrow> bool" where
  "short_owner_char c = (alnum_char c \<or> c = CHR ''_'' \<or> c = CHR ''-'')"

definition short_repo_char :: "char \<Rightarrow> bool" where
  "short_repo_char c = (alnum_char c \<or> c = CHR ''_'' \<or> c = CHR ''.'' \<or> c = CHR ''-'')"

text \<open>The tail that the HTTPS and the bare pattern share, after the \<^verbatim>\<open>repo\<close> group.\<close>

definition URL_TAIL :: re where
  "URL_TAIL =
     seqs [Opt (Lit ''/''),
           Opt (seqs [Alt (Lit ''tree'') (Lit ''blob''), Lit ''/'', Grp ''branch'' (Plus not_slash)]),
           Opt (seqs [Lit ''pull/'', Grp ''pr'' (Plus digit_char)]),
           Opt (Lit ''.git''),
           Opt (Lit ''/''),
           Eos]"

definition HTTPS_PATTERN :: re where
  "HTTPS_PATTERN =
     seqs [Lit ''http'', Opt (Lit ''s''), Lit ''://github.com/'',
           Grp ''owner'' (Plus not_slash), Lit ''/'', Grp ''repo'' (PlusLazy not_slash),
           URL_TAIL]"

definition BARE_PATTERN :: re where
  "BARE_PATTERN =
     seqs [Bos, Lit ''github.com/'',
           Grp ''owner'' (Plus not_slash), Lit ''/'', Grp ''repo'' (PlusLazy not_slash),
           URL_TAIL]"

definition SSH_PATTERN :: re where
  "SSH_PATTERN =
     seqs [Lit ''git@github.com:'',
           Grp ''owner'' (Plus not_slash), Lit ''/'', Grp ''repo'' (PlusLazy not_slash),
           Opt (Lit ''.git''), Opt (Lit ''/''), Eos]"

definition SHORT_PATTERN :: re where
  "SHORT_PATTERN =
     seqs [Bos, Grp ''owner'' (Plus short_owner_char), Lit ''/'',
           Grp ''repo'' (Plus short_repo_char), Eos]"

subsection \<open>Parsing\<close>

text \<open>The white space that \<^verbatim>\<open>str.strip()\<close> removes, among the code points below 256.\<close>

definition space_char :: "char \<Rightarrow> bool" where
  "space_char c =
     (((9::nat) \<le> of_char c \<and> of_char c \<le> (13::nat)) \<or>
      ((28::nat) \<le> of_char c \<and> of_char c \<le> (32::nat)) \<or>
      of_char c = (133::nat) \<or> of_char c = (160::nat))"

definition strip :: "string \<Rightarrow> string" where
  "strip s = rev (dropWhile space_char (rev (dropWhile space_char s)))"

text \<open>\<^verbatim>\<open>int(digits)\<close> on a string of decimal digits.\<close>

definition int_of_digits :: "string \<Rightarrow> int" where
  "int_of_digits ds = foldl (\<lambda>a c. 10 * a + (int (of_char c) - 48)) 0 ds"

definition url_info :: "(string \<times> string) list \<Rightarrow> repo_info" where
  "url_info m =
     \<lparr>owner = group_str m ''owner'', repo = group_str m ''repo'',
      pr_number = (case group m ''pr'' of None \<Rightarrow> None | Some ds \<Rightarrow> Some (int_of_digits ds)),
      branch = group m ''branch''\<rparr>"

definition plain_info :: "(string \<times> string) list \<Rightarrow> repo_info" where
  "plain_info m =
     \<lparr>owner = group_str m ''owner'', repo = group_str m ''repo'',
      pr_number = None, branch = None\<rparr>"

definition parse :: "string \<Rightarrow> repo_info option" where
  "parse url0 =
     (let url = strip url0 in
      case re_match HTTPS_PATTERN url of
        Some m \<Rightarrow> Some (url_info m)
      | None \<Rightarrow>
          (case re_match BARE_PATTERN url of
             Some m \<Rightarrow> Some (url_info m)
           | None \<Rightarrow>
               (case re_match SSH_PATTERN url of
                  Some m \<Rightarrow> Some (plain_info m)
                | None \<Rightarrow>
                    (case re_match SHORT_PATTERN url of
                       Some m \<Rightarrow> Some (plain_info m)
                     | None \<Rightarrow> None))))"

definition is_valid_github_url :: "string \<Rightarrow> bool" where
  "is_valid_github_url url = (parse url \<noteq> None)"


section \<open>The HTTP surface\<close>






section \<open>The specification's notions\<close>

subsection \<open>Batch outcomes\<close>

text \<open>
  What happens to each fetched PR, in fetch order: the error raised while it was processed,
  or the violations found. The world that one PR leaves is the one the next PR starts in.
\<close>

fun pr_outcomes ::
  "('w, 'r) env \<Rightarrow> string \<Rightarrow> 'r list \<Rightarrow> string option \<Rightarrow> dict list \<Rightarrow> 'w st \<Rightarrow>
   (exn + violation list) list" where
  "pr_outcomes E repo_full_name rules github_token [] s = []"
| "pr_outcomes E repo_full_name rules github_token (pr # prs) s =
     (case bind (build_event_data E repo_full_name (JDict pr) github_token)
                (evaluate_rules E rules) s of
        (out, s') \<Rightarrow> out # pr_outcomes E repo_full_name rules github_token prs s')"

text \<open>The per-PR summary that the specification asks for, from the PR and its outcome.\<close>

fun summary_of :: "('w, 'r) env \<Rightarrow> dict \<Rightarrow> exn + violation list \<Rightarrow> summary" where
  "summary_of E pr (Inl e) =
     \<lparr>sm_number = dget pr ''number'', sm_title = dget_default pr ''title'' (JStr []),
      sm_violations_count = 0, sm_violations = Some [], sm_error = Some (str_exn e)\<rparr>"
| "summary_of E pr (Inr vs) =
     \<lparr>sm_number = dget pr ''number'', sm_title = dget_default pr ''title'' (JStr []),
      sm_violations_count = length vs, sm_violations = Some (map (model_dump E) vs),
      sm_error = None\<rparr>"

fun outcome_violations :: "exn + violation list \<Rightarrow> violation list" where
  "outcome_violations (Inl e) = []"
| "outcome_violations (Inr vs) = vs"

subsection \<open>Rule documents\<close>

text \<open>A well-formed entry of a rule document: a mapping that the rule loader turns into a rule.\<close>

fun well_formed :: "('w, 'r) env \<Rightarrow> json \<Rightarrow> bool" where
  "well_formed E (JDict d) = (case parse_rule E d of Inr (Some rule) \<Rightarrow> True | _ \<Rightarrow> False)"
| "well_formed E _ = False"

text \<open>A structurally valid document: a mapping with a \<^verbatim>\<open>rules\<close> key.\<close>

fun has_rules_key :: "exn + json \<Rightarrow> bool" where
  "has_rules_key (Inr (JDict d)) = (map_of d ''rules'' \<noteq> None)"
| "has_rules_key _ = False"

subsection \<open>The resolution chain\<close>

text \<open>
  The chain as the claim words it: the explicit text and the repository file succeed with a
  non-empty parse, the local fallback succeeds when the file exists, and explicit text
  keeps the repository out of the chain.
\<close>

definition claimed_load_rules ::
  "('w, 'r) env \<Rightarrow> string \<Rightarrow> string option \<Rightarrow> string option \<Rightarrow> ('r list, 'w) io" where
  "claimed_load_rules E repo_full_name rules_yaml github_token =
     (case rules_yaml of
        Some text \<Rightarrow>
          if parse_rules_from_yaml E text \<noteq> [] then ret (parse_rules_from_yaml E text)
          else local_rules E
      | None \<Rightarrow>
          bind (repository_rules_content E repo_full_name github_token) (\<lambda>c.
            case c of
              Some content \<Rightarrow>
                if parse_rules_from_yaml E content \<noteq> [] then ret (parse_rules_from_yaml E content)
                else local_rules E
            | None \<Rightarrow> local_rules E))"

text \<open>
  The chain as a list of sources, each giving the text it has, if any: the first text wins
  and is parsed, whatever its parse gives.
\<close>

definition explicit_text :: "string option \<Rightarrow> (string option, 'w) io" where
  "explicit_text rules_yaml = ret (if provided rules_yaml then rules_yaml else None)"

definition local_text :: "('w, 'r) env \<Rightarrow> (string option, 'w) io" where
  "local_text E =
     bind (extern LocalRulesExists (local_rules_exists E)) (\<lambda>ex.
       if ex then bind (extern LocalRulesReadText (local_rules_read_text E)) (\<lambda>content. ret (Some content))
       else ret None)"

fun first_text :: "(string option, 'w) io list \<Rightarrow> (string option, 'w) io" where
  "first_text [] s = (Inr None, s)"
| "first_text (src # srcs) s =
     (case src s of
        (Inl e, s') \<Rightarrow> (Inl e, s')
      | (Inr (Some text), s') \<Rightarrow> (Inr (Some text), s')
      | (Inr None, s') \<Rightarrow> first_text srcs s')"

definition rules_of_first_text ::
  "('w, 'r) env \<Rightarrow> string \<Rightarrow> string option \<Rightarrow> string option \<Rightarrow> ('r list, 'w) io" where
  "rules_of_first_text E repo_full_name rules_yaml github_token =
     bind (first_text [explicit_text rules_yaml,
                       repository_rules_content E repo_full_name github_token,
                       local_text E])
       (\<lambda>t. case t of Some text \<Rightarrow> ret (parse_rules_from_yaml E text) | None \<Rightarrow> ret [])"

subsection \<open>Sub-fetches\<close>

text \<open>
  A sub-fetch fails in a world when a step of it raises, when there are no headers, when the
  status is not 200, or when the body does not decode.
\<close>

definition sub_fetch_fails :: "('w, 'r) env \<Rightarrow> endpoint \<Rightarrow> string option \<Rightarrow> 'w \<Rightarrow> bool" where
  "sub_fetch_fails E ep github_token w =
     (case gh_get_auth_headers E github_token w of
        (Inl e, w1) \<Rightarrow> True
      | (Inr headers, w1) \<Rightarrow>
          \<not> truthy headers \<or>
          (case gh_get_session E w1 of
             (Inl e, w2) \<Rightarrow> True
           | (Inr session, w2) \<Rightarrow>
               (case gh_session_get E ep headers w2 of
                  (Inl e, w3) \<Rightarrow> True
                | (Inr response, w3) \<Rightarrow> fst response \<noteq> 200 \<or> isl (snd response))))"

text \<open>A payload of user or files that the projection of the event accepts.\<close>

fun mapping_or_falsy :: "json \<Rightarrow> bool" where
  "mapping_or_falsy (JDict d) = True"
| "mapping_or_falsy v = (\<not> truthy v)"

fun is_mapping :: "json \<Rightarrow> bool" where
  "is_mapping (JDict d) = True"
| "is_mapping v = False"

fun files_payload_ok :: "json \<Rightarrow> bool" where
  "files_payload_ok (JList fs) = list_all is_mapping fs"
| "files_payload_ok v = (\<not> truthy v)"

text \<open>
  The answers of the candidate paths, were all of them probed one after the other, and
  whether an answer is a hit.
\<close>

fun probe_all ::
  "('w, 'r) env \<Rightarrow> string \<Rightarrow> string option \<Rightarrow> string list \<Rightarrow> 'w \<Rightarrow> (exn + string option) list" where
  "probe_all E repo_full_name github_token [] w = []"
| "probe_all E repo_full_name github_token (path # paths) w =
     (case gh_get_file_content E repo_full_name path github_token w of
        (r, w') \<Rightarrow> r # probe_all E repo_full_name github_token paths w')"

fun hit :: "exn + string option \<Rightarrow> bool" where
  "hit (Inr (Some content)) = (content \<noteq> [])"
| "hit _ = False"

fun hit_content :: "(exn + string option) option \<Rightarrow> string option" where
  "hit_content (Some (Inr c)) = c"
| "hit_content _ = None"

subsection \<open>Reference shapes\<close>

text \<open>What may follow the repository in a web URL or a bare reference.\<close>

datatype trailer =
    NoTrailer
  | TrailingSlash
  | Tree string
  | Blob string
  | Pull nat

fun trailer_text :: "trailer \<Rightarrow> string" where
  "trailer_text NoTrailer = []"
| "trailer_text TrailingSlash = ''/''"
| "trailer_text (Tree b) = ''/tree/'' @ b"
| "trailer_text (Blob b) = ''/blob/'' @ b"
| "trailer_text (Pull n) = ''/pull/'' @ digits_of n"

fun trailer_branch :: "trailer \<Rightarrow> string option" where
  "trailer_branch (Tree b) = Some b"
| "trailer_branch (Blob b) = Some b"
| "trailer_branch _ = None"

fun trailer_pr :: "trailer \<Rightarrow> int option" where
  "trailer_pr (Pull n) = Some (int n)"
| "trailer_pr _ = None"

text \<open>A path segment: not empty, without a slash and without white space.\<close>

definition segment :: "string \<Rightarrow> bool" where
  "segment x = (x \<noteq> [] \<and> list_all (\<lambda>c. c \<noteq> CHR ''/'' \<and> \<not> space_char c) x)"

fun trailer_ok :: "trailer \<Rightarrow> bool" where
  "trailer_ok (Tree b) = segment b"
| "trailer_ok (Blob b) = segment b"
| "trailer_ok _ = True"

definition web_url :: "bool \<Rightarrow> string \<Rightarrow> string \<Rightarrow> trailer \<Rightarrow> string" where
  "web_url secure ow rp tr =
     (if secure then ''https'' else ''http'') @ ''://github.com/'' @ ow @ ''/'' @ rp @ trailer_text tr"

definition bare_ref :: "string \<Rightarrow> string \<Rightarrow> trailer \<Rightarrow> string" where
  "bare_ref ow rp tr = ''github.com/'' @ ow @ ''/'' @ rp @ trailer_text tr"

definition ssh_ref :: "string \<Rightarrow> string \<Rightarrow> bool \<Rightarrow> string" where
  "ssh_ref ow rp dot_git = ''git@github.com:'' @ ow @ ''/'' @ rp @ (if dot_git then ''.git'' else [])"

definition short_ref :: "string \<Rightarrow> string \<Rightarrow> string" where
  "short_ref ow rp = ow @ ''/'' @ rp"

section \<open>A concrete setting\<close>

text \<open>
  A world that counts the calls made into it, with a repository that has three candidate
  paths for CODEOWNERS, of which the second has content, and whose reviews endpoint answers
  with status 500.
\<close>

definition demo_yaml :: "string \<Rightarrow> exn + json" where
  "demo_yaml text =
     (if text = ''rules: []'' then Inr (JDict [(''rules'', JList [])])
      else if text = ''- a'' then Inr (JList [JStr ''a''])
      else if text = ''{'' then Inl (Exn ''ParserError'')
      else
        Inr (JDict [(''rules'',
               JList [JDict [(''description'', JStr text)],
                      JStr ''not a mapping'',
                      JDict [(''severity'', JStr ''high'')],
                      JDict [(''description'', JStr ''second'')]])]))"

definition demo_parse_rule :: "dict \<Rightarrow> exn + dict option" where
  "demo_parse_rule d =
     (case map_of d ''description'' of None \<Rightarrow> Inl (Exn ''KeyError: description'') | Some v \<Rightarrow> Inr (Some d))"

definition demo_file_content :: "string option \<Rightarrow> string \<Rightarrow> exn + string option" where
  "demo_file_content rules_file path =
     (if path = ''.watchflow/rules.yaml'' then Inr rules_file
      else if path = ''.github/CODEOWNERS'' then Inl (Exn ''404'')
      else if path = ''CODEOWNERS'' then Inr (Some ''* @octo'')
      else Inr None)"

definition demo_response :: "json \<Rightarrow> endpoint \<Rightarrow> int \<times> (exn + json)" where
  "demo_response pull_payload ep =
     (case ep of
        PullEndpoint r n \<Rightarrow> (200, Inr pull_payload)
      | ReviewsEndpoint r n \<Rightarrow> (500, Inr JNull)
      | FilesEndpoint r n \<Rightarrow>
          (200, Inr (JList [JDict [(''filename'', JStr ''a.py''), (''status'', JStr ''added'')]])))"

definition demo_env ::
  "json \<Rightarrow> string option \<Rightarrow> dict list \<Rightarrow> json \<Rightarrow> exn + engine_out \<Rightarrow> (nat, dict) env" where
  "demo_env repo_data rules_file prs pull_payload engine_result =
     \<lparr>gh_get_repository = (\<lambda>r t w. (Inr repo_data, Suc w)),
      gh_get_file_content = (\<lambda>r path t w. (demo_file_content rules_file path, Suc w)),
      gh_list_pull_requests = (\<lambda>r t n w. (Inr prs, Suc w)),
      gh_fetch_all_pull_requests = (\<lambda>r t n w. (Inr prs, Suc w)),
      gh_get_auth_headers = (\<lambda>t w. (Inr (JDict [(''Accept'', JStr ''application/json'')]), Suc w)),
      gh_get_session = (\<lambda>w. (Inr (), Suc w)),
      gh_session_get = (\<lambda>ep h w. (Inr (demo_response pull_payload ep), Suc w)),
      local_rules_exists = (\<lambda>w. (Inr True, Suc w)),
      local_rules_read_text = (\<lambda>w. (Inr ''local'', Suc w)),
      engine_execute = (\<lambda>ev rules w. (engine_result, Suc w)),
      clock_ms = (\<lambda>w. int w),
      rules_file_path = ''.watchflow/rules.yaml'',
      yaml_safe_load = demo_yaml,
      parse_rule = demo_parse_rule,
      model_validate = (\<lambda>v. Inr v),
      model_dump = v_model\<rparr>"

definition octo_demo :: repo_info where
  "octo_demo = \<lparr>owner = ''octo'', repo = ''demo'', pr_number = None, branch = None\<rparr>"

definition demo_prs :: "dict list" where
  "demo_prs =
     [[(''number'', JInt 1), (''title'', JStr ''one'')],
      [(''number'', JInt 2), (''title'', JStr ''two''), (''user'', JStr ''bob'')],
      [(''number'', JInt 3), (''user'', JDict [(''login'', JStr ''eve'')])]]"

definition demo_batch_env :: "(nat, dict) env" where
  "demo_batch_env =
     demo_env (JDict [(''id'', JInt 1)]) (Some ''five'') demo_prs JNull
       (Inr (RawViolations [JStr ''v1'', JStr ''v2'']))"

definition st0 :: "nat st" where
  "st0 = \<lparr>trace = [], world = 0\<rparr>"

text \<open>Two more settings: a host without the local fallback file, and a repository whose
  rules file holds an empty \<^verbatim>\<open>rules\<close> sequence.\<close>

definition local_missing_env :: "(nat, dict) env" where
  "local_missing_env = (demo_env (JDict [(''id'', JInt 1)]) None demo_prs JNull (Inr NoEvaluationResult))
     \<lparr>local_rules_exists := (\<lambda>w. (Inr False, Suc w))\<rparr>"

definition empty_rules_file_env :: "(nat, dict) env" where
  "empty_rules_file_env =
     demo_env (JDict [(''id'', JInt 1)]) (Some ''rules: []'') demo_prs JNull (Inr NoEvaluationResult)"

text \<open>Settings for the fatal paths: no such repository, no open PR, a lookup that raises.\<close>

definition repo_missing_env :: "(nat, dict) env" where
  "repo_missing_env = demo_env JNull None [] JNull (Inr NoEvaluationResult)"




text \<open>The calls that list the open PRs of a repository.\<close>

fun pr_list_call :: "call \<Rightarrow> bool" where
  "pr_list_call (ListPullRequests r n) = True"
| "pr_list_call (FetchAllPullRequests r n) = True"
| "pr_list_call c = False"

text \<open>A step that makes only calls of one kind, whatever the world it starts in.\<close>

definition emits :: "(call \<Rightarrow> bool) \<Rightarrow> ('a, 'w) io \<Rightarrow> bool" where
  "emits P m = (\<forall>s. \<exists>calls. trace (snd (m s)) = trace s @ calls \<and> list_all P calls)"

text \<open>
  The calls that processing one PR of a repository may make: the three steps of an HTTP
  fetch, the probing of a CODEOWNERS candidate, and the engine.
\<close>

fun per_pr_call :: "string \<Rightarrow> call \<Rightarrow> bool" where
  "per_pr_call r GetAuthHeaders = True"
| "per_pr_call r GetSession = True"
| "per_pr_call r (SessionGet ep) = True"
| "per_pr_call r (GetFileContent r' path) = (r' = r \<and> path \<in> set codeowners_paths)"
| "per_pr_call r EngineExecute = True"
| "per_pr_call r c = False"

text \<open>A PR payload that the single-PR path takes for a PR that makes context building raise.\<close>

definition malformed_pr_env :: "(nat, dict) env" where
  "malformed_pr_env =
     demo_env (JDict [(''id'', JInt 1)]) (Some ''five'') demo_prs
       (JDict [(''number'', JInt 7), (''user'', JStr ''bob'')]) (Inr NoEvaluationResult)"

text \<open>A setting whose engine raises, and the event that it builds for PR 7.\<close>

definition crashing_env :: "(nat, dict) env" where
  "crashing_env =
     demo_env (JDict [(''id'', JInt 1)]) (Some ''five'') demo_prs (JDict [(''number'', JInt 7)])
       (Inl (Exn ''boom''))"


definition demo_event :: event_data where
  "demo_event =
     \<lparr>pull_request_details = JDict [(''number'', JInt 7)], triggering_user = JNull,
      repository = ''octo/demo'', reviews = Some (JList []),
      files = Some (JList [JDict [(''filename'', JStr ''a.py''), (''status'', JStr ''added'')]]),
      changed_files =
        Some [[(''filename'', JStr ''a.py''), (''status'', JStr ''added''),
               (''additions'', JNull), (''deletions'', JNull)]],
      codeowners_content = Some ''* @octo''\<rparr>"

text \<open>A setting in which every HTTP sub-fetch fails: the session cannot be had.\<close>

definition no_session_env :: "(nat, dict) env" where
  "no_session_env = demo_batch_env\<lparr>gh_get_session := (\<lambda>w. (Inl (Exn ''session closed''), Suc w))\<rparr>"


text \<open>A repository name in a reference: a segment that does not end in \<^verbatim>\<open>.git\<close>.\<close>

definition repo_name :: "string \<Rightarrow> bool" where
  "repo_name x = (segment x \<and> \<not> suffix ''.git'' x)"

text \<open>The first state that a pattern reaches, if any.\<close>

definition first_match :: "re \<Rightarrow> mstate \<Rightarrow> mstate option" where
  "first_match r x = (case ms r x of [] \<Rightarrow> None | y # _ \<Rightarrow> Some y)"


section \<open>Unfolding the model\<close>

lemmas model_defs =
  ret_def lift_def bind_def catch_def extern_def then_exn_def
  http_fetch_def fetch_pr_data_def fetch_pr_reviews_def fetch_pr_files_def
  fetch_open_prs_def fetch_all_prs_paginated_def fetch_prs_def
  codeowners_paths_def probe_codeowners_def fetch_codeowners_def
  changed_file_def or_empty_list_def or_empty_dict_def build_event_data_def
  evaluate_rules_def dget_def dget_default_def
  parse_entry_def parse_rules_from_yaml_def repository_rules_content_def local_rules_def
  repository_or_local_rules_def load_rules_def
  elapsed_def failure_def analyze_single_pr_def analyze_pr_def analyze_latest_prs_def
  target_pr_def analyze_body_def analyze_def full_name_def

lemmas demo_defs =
  demo_env_def demo_batch_env_def demo_prs_def demo_yaml_def demo_parse_rule_def
  demo_file_content_def demo_response_def octo_demo_def st0_def


section \<open>The batch loop\<close>

lemma fetch_prs_total:
  "\<exists>prs s'. fetch_prs E r t n s = (Inr prs, s')"
  by (auto simp: fetch_prs_def fetch_open_prs_def fetch_all_prs_paginated_def catch_def extern_def ret_def
      split: prod.splits sum.splits)

lemma analyze_prs_outcomes:
  "fst (analyze_prs E r rules t prs acc s) =
     (fst acc @ concat (map outcome_violations (pr_outcomes E r rules t prs s)),
      snd acc @ map2 (summary_of E) prs (pr_outcomes E r rules t prs s))"
proof (induction prs arbitrary: acc s)
  case Nil
  show ?case by simp
next
  case (Cons pr prs)
  obtain out s' where run: "bind (build_event_data E r (JDict pr) t) (evaluate_rules E rules) s = (out, s')"
    by (cases "bind (build_event_data E r (JDict pr) t) (evaluate_rules E rules) s")
  show ?case
  proof (cases out)
    case (Inl e)
    with run Cons.IH show ?thesis by (simp add: analyze_pr_def)
  next
    case (Inr vs)
    with run Cons.IH show ?thesis by (simp add: analyze_pr_def)
  qed
qed

lemma length_pr_outcomes: "length (pr_outcomes E r rules t prs s) = length prs"
  by (induction prs arbitrary: s) (auto split: prod.splits)



lemma numbers_of_summaries:
  "length outs = length prs \<Longrightarrow>
   map sm_number (map2 (summary_of E) prs outs) = map (\<lambda>pr. dget pr ''number'') prs"
proof (induction prs outs rule: list_induct2')
  case (4 pr prs out outs)
  then show ?case by (cases out) simp_all
qed simp_all



text \<open>
  Claim C2. For a non-empty fetched list of N PRs the batch analysis returns a successful
  result with exactly N summaries, in fetch order, each the summary of its PR's outcome; where
  processing a PR raised, its summary holds the number, the title, a count of 0, no violations
  and the message of the error, and the PRs after it are processed all the same.
\<close>

theorem batch_summaries:
  assumes fetched: "fetch_prs E (full_name ri) tok limit s = (Inr prs, s1)"
    and nonempty: "prs \<noteq> []"
  shows "\<exists>r s'. analyze_latest_prs E ri rules n tok limit t0 bm s = (Inr r, s') \<and>
           success r \<and> error r = None \<and>
           length (prs_analyzed r) = length prs \<and>
           map sm_number (prs_analyzed r) = map (\<lambda>pr. dget pr ''number'') prs \<and>
           prs_analyzed r =
             map2 (summary_of E) prs (pr_outcomes E (full_name ri) rules tok prs s1) \<and>
           (\<forall>i e. i < length prs \<and>
                  pr_outcomes E (full_name ri) rules tok prs s1 ! i = Inl e \<longrightarrow>
                  prs_analyzed r ! i =
                    \<lparr>sm_number = dget (prs ! i) ''number'',
                     sm_title = dget_default (prs ! i) ''title'' (JStr []),
                     sm_violations_count = 0, sm_violations = Some [],
                     sm_error = Some (str_exn e)\<rparr>)"
proof -
  let ?outs = "pr_outcomes E (full_name ri) rules tok prs s1"
  obtain p ps where prs: "prs = p # ps"
    using nonempty by (cases prs) auto
  obtain acc s' where run: "analyze_prs E (full_name ri) rules tok prs ([], []) s1 = (acc, s')"
    by (cases "analyze_prs E (full_name ri) rules tok prs ([], []) s1")
  have acc: "acc = (concat (map outcome_violations ?outs), map2 (summary_of E) prs ?outs)"
    using analyze_prs_outcomes [of E "full_name ri" rules tok prs "([], [])" s1] run by simp
  have len: "length ?outs = length prs" by (rule length_pr_outcomes)
  define r where "r = \<lparr>success = True, violations = fst acc, rules_loaded = n,
      processing_time_ms = elapsed E t0 s', error = None, res_repo_info = Some ri,
      pr_data = Some (JDict p), prs_analyzed = snd acc\<rparr>"
  have result: "analyze_latest_prs E ri rules n tok limit t0 bm s = (Inr r, s')"
    using fetched prs run by (simp add: analyze_latest_prs_def bind_def r_def split: prod.splits)
  have sums: "prs_analyzed r = map2 (summary_of E) prs ?outs"
    by (simp add: r_def acc)
  have nth: "prs_analyzed r ! i =
      \<lparr>sm_number = dget (prs ! i) ''number'',
       sm_title = dget_default (prs ! i) ''title'' (JStr []),
       sm_violations_count = 0, sm_violations = Some [], sm_error = Some (str_exn e)\<rparr>"
    if "i < length prs" and "?outs ! i = Inl e" for i e
    using that len by (simp add: sums)
  show ?thesis
    using result sums len nth numbers_of_summaries [OF len, of E]
    by (intro exI [of _ r] exI [of _ s']) (simp add: r_def)
qed

theorem batch_summaries_witness:
  "fetch_prs demo_batch_env (full_name octo_demo) None 5 st0 =
     (Inr demo_prs, \<lparr>trace = [ListPullRequests ''octo/demo'' 5], world = 1\<rparr>) \<and>
   demo_prs \<noteq> [] \<and>
   pr_outcomes demo_batch_env (full_name octo_demo) [[(''description'', JStr ''d'')]] None
     demo_prs \<lparr>trace = [ListPullRequests ''octo/demo'' 5], world = 1\<rparr> ! 1 =
     Inl (Exn ''AttributeError: str object has no attribute get'') \<and>
   (\<exists>r s'. analyze_latest_prs demo_batch_env octo_demo [[(''description'', JStr ''d'')]] 1 None 5 0
              False st0 = (Inr r, s') \<and>
      success r \<and> length (prs_analyzed r) = 3 \<and>
      prs_analyzed r ! 1 =
        \<lparr>sm_number = JInt 2, sm_title = JStr ''two'', sm_violations_count = 0,
         sm_violations = Some [],
         sm_error = Some ''AttributeError: str object has no attribute get''\<rparr>)"
proof -
  let ?s1 = "\<lparr>trace = [ListPullRequests ''octo/demo'' 5], world = 1::nat\<rparr>"
  let ?rules = "[[(''description'', JStr ''d'')]]"
  have fetched: "fetch_prs demo_batch_env (full_name octo_demo) None 5 st0 = (Inr demo_prs, ?s1)"
    by (simp add: fetch_prs_def fetch_open_prs_def catch_def extern_def demo_batch_env_def
        demo_env_def st0_def full_name_def octo_demo_def)
  have nonempty: "demo_prs \<noteq> []"
    by (simp add: demo_prs_def)
  have second: "pr_outcomes demo_batch_env (full_name octo_demo) ?rules None demo_prs ?s1 ! 1 =
      Inl (Exn ''AttributeError: str object has no attribute get'')"
    by (simp add: demo_defs model_defs)
  from batch_summaries [OF fetched nonempty, of ?rules 1 0 False]
  obtain r s' where r: "analyze_latest_prs demo_batch_env octo_demo ?rules 1 None 5 0 False st0 = (Inr r, s')"
    "success r" "length (prs_analyzed r) = length demo_prs"
    "\<forall>i e. i < length demo_prs \<and>
       pr_outcomes demo_batch_env (full_name octo_demo) ?rules None demo_prs ?s1 ! i = Inl e \<longrightarrow>
       prs_analyzed r ! i =
         \<lparr>sm_number = dget (demo_prs ! i) ''number'',
          sm_title = dget_default (demo_prs ! i) ''title'' (JStr []),
          sm_violations_count = 0, sm_violations = Some [], sm_error = Some (str_exn e)\<rparr>"
    by blast
  from r(4) second have "prs_analyzed r ! 1 =
      \<lparr>sm_number = dget (demo_prs ! 1) ''number'',
       sm_title = dget_default (demo_prs ! 1) ''title'' (JStr []),
       sm_violations_count = 0, sm_violations = Some [],
       sm_error = Some (str_exn (Exn ''AttributeError: str object has no attribute get''))\<rparr>"
    by (simp add: demo_prs_def)
  then have "prs_analyzed r ! 1 =
      \<lparr>sm_number = JInt 2, sm_title = JStr ''two'', sm_violations_count = 0,
       sm_violations = Some [],
       sm_error = Some ''AttributeError: str object has no attribute get''\<rparr>"
    by (simp add: demo_prs_def dget_def dget_default_def)
  with fetched nonempty second r(1-3) show ?thesis
    by (auto simp: demo_prs_def)
qed


section \<open>Parsing a rule document\<close>

lemma parse_entries_append:
  "parse_entries E acc entries = acc @ concat (map (parse_entry E) entries)"
  by (induction entries arbitrary: acc) simp_all

lemma parse_entry_malformed: "\<not> well_formed E e \<Longrightarrow> parse_entry E e = []"
  by (cases e) (auto simp: parse_entry_def split: sum.splits option.splits)

lemma parse_entry_well_formed: "well_formed E e \<Longrightarrow> length (parse_entry E e) = 1"
  by (cases e) (auto simp: parse_entry_def split: sum.splits option.splits)

lemma concat_parse_entry_filter:
  "concat (map (parse_entry E) (filter (well_formed E) entries)) =
   concat (map (parse_entry E) entries)"
  by (induction entries) (simp_all add: parse_entry_malformed)

lemma length_concat_parse_entry:
  "length (concat (map (parse_entry E) entries)) = length (filter (well_formed E) entries)"
  by (induction entries) (simp_all add: parse_entry_malformed parse_entry_well_formed)

text \<open>
  Claim C4. A rule document whose \<^verbatim>\<open>rules\<close> sequence has N well-formed and M malformed
  entries parses to exactly N rules: the result is that of the well-formed entries alone, and
  a malformed entry anywhere in the sequence changes nothing. A document that is not a
  mapping, or has no \<^verbatim>\<open>rules\<close> key, or does not load at all, parses to the empty list.
\<close>

theorem parse_rules_skips_malformed:
  "(yaml_safe_load E text = Inr (JDict d) \<and> map_of d ''rules'' = Some (JList entries) \<longrightarrow>
      length (parse_rules_from_yaml E text) = length (filter (well_formed E) entries) \<and>
      length (filter (well_formed E) entries) +
        length (filter (\<lambda>e. \<not> well_formed E e) entries) = length entries \<and>
      parse_rules_from_yaml E text = parse_entries E [] (filter (well_formed E) entries)) \<and>
   (\<not> well_formed E bad \<longrightarrow>
      parse_entries E [] (before @ bad # after) = parse_entries E [] (before @ after)) \<and>
   (\<not> has_rules_key (yaml_safe_load E text) \<longrightarrow> parse_rules_from_yaml E text = [])"
proof (intro conjI impI)
  assume doc: "yaml_safe_load E text = Inr (JDict d) \<and> map_of d ''rules'' = Some (JList entries)"
  then have parsed: "parse_rules_from_yaml E text = concat (map (parse_entry E) entries)"
    by (simp add: parse_rules_from_yaml_def parse_entries_append)
  show "length (parse_rules_from_yaml E text) = length (filter (well_formed E) entries)"
    by (simp add: parsed length_concat_parse_entry)
  show "length (filter (well_formed E) entries) +
      length (filter (\<lambda>e. \<not> well_formed E e) entries) = length entries"
    by (rule sum_length_filter_compl)
  show "parse_rules_from_yaml E text = parse_entries E [] (filter (well_formed E) entries)"
    by (simp add: parsed parse_entries_append concat_parse_entry_filter)
next
  assume "\<not> well_formed E bad"
  then show "parse_entries E [] (before @ bad # after) = parse_entries E [] (before @ after)"
    by (simp add: parse_entries_append parse_entry_malformed)
next
  assume invalid: "\<not> has_rules_key (yaml_safe_load E text)"
  show "parse_rules_from_yaml E text = []"
  proof (cases "yaml_safe_load E text")
    case (Inl e)
    then show ?thesis by (simp add: parse_rules_from_yaml_def)
  next
    case (Inr v)
    with invalid show ?thesis
      by (cases v) (auto simp: parse_rules_from_yaml_def split: option.splits)
  qed
qed

theorem parse_rules_skips_malformed_witness:
  "yaml_safe_load demo_batch_env ''five'' =
     Inr (JDict [(''rules'',
            JList [JDict [(''description'', JStr ''five'')], JStr ''not a mapping'',
                   JDict [(''severity'', JStr ''high'')],
                   JDict [(''description'', JStr ''second'')]])]) \<and>
   length (filter (well_formed demo_batch_env)
     [JDict [(''description'', JStr ''five'')], JStr ''not a mapping'',
      JDict [(''severity'', JStr ''high'')], JDict [(''description'', JStr ''second'')]]) = 2 \<and>
   length (parse_rules_from_yaml demo_batch_env ''five'') = 2 \<and>
   \<not> well_formed demo_batch_env (JStr ''not a mapping'') \<and>
   parse_entries demo_batch_env [] ([JDict [(''description'', JStr ''five'')]] @
       JStr ''not a mapping'' # [JDict [(''description'', JStr ''second'')]]) =
     parse_entries demo_batch_env [] ([JDict [(''description'', JStr ''five'')]] @
       [JDict [(''description'', JStr ''second'')]]) \<and>
   \<not> has_rules_key (yaml_safe_load demo_batch_env ''- a'') \<and>
   parse_rules_from_yaml demo_batch_env ''- a'' = []"
proof -
  let ?entries = "[JDict [(''description'', JStr ''five'')], JStr ''not a mapping'',
      JDict [(''severity'', JStr ''high'')], JDict [(''description'', JStr ''second'')]]"
  have doc: "yaml_safe_load demo_batch_env ''five'' = Inr (JDict [(''rules'', JList ?entries)])"
    by (simp add: demo_defs)
  have key: "map_of [(''rules'', JList ?entries)] ''rules'' = Some (JList ?entries)"
    by simp
  have two: "length (filter (well_formed demo_batch_env) ?entries) = 2"
    by (simp add: demo_defs)
  have bad: "\<not> well_formed demo_batch_env (JStr ''not a mapping'')"
    by simp
  have invalid: "\<not> has_rules_key (yaml_safe_load demo_batch_env ''- a'')"
    by (simp add: demo_defs)
  note inst1 = parse_rules_skips_malformed
    [of demo_batch_env "''five''" "[(''rules'', JList ?entries)]" ?entries
      "JStr ''not a mapping''" "[JDict [(''description'', JStr ''five'')]]"
      "[JDict [(''description'', JStr ''second'')]]"]
  note inst2 = parse_rules_skips_malformed
    [of demo_batch_env "''- a''" "[]" "[]" JNull "[]" "[]"]
  have "length (parse_rules_from_yaml demo_batch_env ''five'') =
      length (filter (well_formed demo_batch_env) ?entries)"
    using inst1 [THEN conjunct1, THEN mp, OF conjI [OF doc key], THEN conjunct1] .
  then have len: "length (parse_rules_from_yaml demo_batch_env ''five'') = 2"
    by (simp only: two)
  have skip: "parse_entries demo_batch_env [] ([JDict [(''description'', JStr ''five'')]] @
       JStr ''not a mapping'' # [JDict [(''description'', JStr ''second'')]]) =
     parse_entries demo_batch_env [] ([JDict [(''description'', JStr ''five'')]] @
       [JDict [(''description'', JStr ''second'')]])"
    using inst1 [THEN conjunct2, THEN conjunct1, THEN mp, OF bad] .
  have empty: "parse_rules_from_yaml demo_batch_env ''- a'' = []"
    using inst2 [THEN conjunct2, THEN conjunct2, THEN mp, OF invalid] .
  from doc two len bad skip invalid empty show ?thesis
    by (intro conjI)
qed


section \<open>Resolving the rules: the chain\<close>

lemma local_rules_local_text:
  "local_rules E s =
     bind (local_text E) (\<lambda>t. case t of Some text \<Rightarrow> ret (parse_rules_from_yaml E text) | None \<Rightarrow> ret []) s"
  by (simp add: local_rules_def local_text_def bind_def ret_def extern_def
      split: prod.splits sum.splits)

lemma repository_rules_content_total:
  "\<exists>c s'. repository_rules_content E r t s = (Inr c, s') \<and>
     trace s' = trace s @ [GetFileContent r (rules_file_path E)]"
  by (auto simp: repository_rules_content_def catch_def bind_def ret_def extern_def
      split: prod.splits sum.splits)

lemma local_text_trace:
  "\<exists>calls. trace (snd (local_text E s)) = trace s @ calls \<and>
     prefix calls [LocalRulesExists, LocalRulesReadText] \<and> calls \<noteq> []"
  by (auto simp: local_text_def bind_def ret_def extern_def split: prod.splits sum.splits)

lemma load_rules_chain:
  "load_rules E r rules_yaml t s = rules_of_first_text E r rules_yaml t s"
proof (cases "provided rules_yaml")
  case True
  then obtain y where "rules_yaml = Some y" "y \<noteq> []"
    by (cases rules_yaml) auto
  then show ?thesis
    by (simp add: load_rules_def rules_of_first_text_def explicit_text_def bind_def ret_def)
next
  case False
  obtain c s1 where repo: "repository_rules_content E r t s = (Inr c, s1)"
    using repository_rules_content_total [of E r t s] by blast
  have fallback: "load_rules E r rules_yaml t s = repository_or_local_rules E r t s"
    using False by (cases rules_yaml) (auto simp: load_rules_def)
  show ?thesis
  proof (cases c)
    case None
    with False repo show ?thesis
      unfolding fallback
      by (simp add: repository_or_local_rules_def rules_of_first_text_def explicit_text_def
          bind_def ret_def local_rules_local_text split: prod.splits sum.splits option.splits)
  next
    case (Some content)
    with False repo show ?thesis
      unfolding fallback
      by (simp add: repository_or_local_rules_def rules_of_first_text_def explicit_text_def
          bind_def ret_def)
  qed
qed

lemma load_rules_trace:
  "\<exists>calls. trace (snd (load_rules E r rules_yaml t s)) = trace s @ calls \<and>
     prefix calls [GetFileContent r (rules_file_path E), LocalRulesExists, LocalRulesReadText]"
proof (cases "provided rules_yaml")
  case True
  then obtain y where "rules_yaml = Some y" "y \<noteq> []"
    by (cases rules_yaml) auto
  then show ?thesis
    by (simp add: load_rules_def ret_def)
next
  case False
  obtain c s1 where repo: "repository_rules_content E r t s = (Inr c, s1)"
    and tr: "trace s1 = trace s @ [GetFileContent r (rules_file_path E)]"
    using repository_rules_content_total [of E r t s] by blast
  have fallback: "load_rules E r rules_yaml t s = repository_or_local_rules E r t s"
    using False by (cases rules_yaml) (auto simp: load_rules_def)
  show ?thesis
  proof (cases c)
    case (Some content)
    with repo tr show ?thesis
      unfolding fallback by (simp add: repository_or_local_rules_def bind_def ret_def)
  next
    case None
    obtain calls where calls: "trace (snd (local_text E s1)) = trace s1 @ calls"
      "prefix calls [LocalRulesExists, LocalRulesReadText]"
      using local_text_trace [of E s1] by blast
    have "snd (local_rules E s1) = snd (local_text E s1)"
      by (simp add: local_rules_local_text bind_def ret_def split: prod.splits sum.splits option.splits)
    with None repo tr calls show ?thesis
      unfolding fallback by (simp add: repository_or_local_rules_def bind_def)
  qed
qed

text \<open>
  Claim C3 as it is worded has a source succeed only with a non-empty parse. The code does
  not: here the repository's rules file parses to no rule while the local file has two, and the
  result is the empty list.
\<close>

theorem load_rules_counterexample:
  "fst (load_rules empty_rules_file_env ''octo/demo'' None None st0) = Inr [] \<and>
   fst (claimed_load_rules empty_rules_file_env ''octo/demo'' None None st0) =
     Inr [[(''description'', JStr ''local'')], [(''description'', JStr ''second'')]]"
  by (simp add: empty_rules_file_env_def claimed_load_rules_def demo_defs model_defs)

text \<open>
  Claim C3, as amended. Rule resolution is the chain of its three sources in the fixed order
  explicit rule text, repository rules file, local fallback file: the first source that has
  text wins (non-empty explicit text, non-empty content of the repository file, the local
  file when it exists), and the parse of that text is the result, also when it is empty. The
  calls made are an initial part of: the repository file, the existence of the local file, its
  text. Non-empty explicit text leaves the world untouched, so the repository is never
  consulted. When no source has text the result is the empty list.
\<close>

theorem load_rules_first_text:
  "load_rules E r rules_yaml t s = rules_of_first_text E r rules_yaml t s \<and>
   (\<exists>calls. trace (snd (load_rules E r rules_yaml t s)) = trace s @ calls \<and>
      prefix calls [GetFileContent r (rules_file_path E), LocalRulesExists, LocalRulesReadText]) \<and>
   (provided rules_yaml \<longrightarrow>
      (\<exists>text. rules_yaml = Some text \<and>
         load_rules E r rules_yaml t s = (Inr (parse_rules_from_yaml E text), s))) \<and>
   (first_text [explicit_text rules_yaml, repository_rules_content E r t, local_text E] s = (Inr None, s') \<longrightarrow>
      load_rules E r rules_yaml t s = (Inr [], s'))"
proof (intro conjI impI)
  show "load_rules E r rules_yaml t s = rules_of_first_text E r rules_yaml t s"
    by (rule load_rules_chain)
  show "\<exists>calls. trace (snd (load_rules E r rules_yaml t s)) = trace s @ calls \<and>
      prefix calls [GetFileContent r (rules_file_path E), LocalRulesExists, LocalRulesReadText]"
    by (rule load_rules_trace)
next
  assume "provided rules_yaml"
  then obtain y where "rules_yaml = Some y" "y \<noteq> []"
    by (cases rules_yaml) auto
  then show "\<exists>text. rules_yaml = Some text \<and>
      load_rules E r rules_yaml t s = (Inr (parse_rules_from_yaml E text), s)"
    by (simp add: load_rules_def ret_def)
next
  assume "first_text [explicit_text rules_yaml, repository_rules_content E r t, local_text E] s = (Inr None, s')"
  then show "load_rules E r rules_yaml t s = (Inr [], s')"
    by (simp add: load_rules_chain rules_of_first_text_def bind_def ret_def)
qed

theorem load_rules_first_text_witness:
  "provided (Some ''- a'') \<and>
   load_rules local_missing_env ''octo/demo'' (Some ''- a'') None st0 = (Inr [], st0) \<and>
   first_text [explicit_text None, repository_rules_content local_missing_env ''octo/demo'' None,
               local_text local_missing_env] st0 =
     (Inr None, \<lparr>trace = [GetFileContent ''octo/demo'' ''.watchflow/rules.yaml'', LocalRulesExists],
                 world = 2\<rparr>) \<and>
   load_rules local_missing_env ''octo/demo'' None None st0 =
     (Inr [], \<lparr>trace = [GetFileContent ''octo/demo'' ''.watchflow/rules.yaml'', LocalRulesExists],
               world = 2\<rparr>)"
proof -
  let ?s' = "\<lparr>trace = [GetFileContent ''octo/demo'' ''.watchflow/rules.yaml'', LocalRulesExists],
               world = 2::nat\<rparr>"
  have given: "provided (Some ''- a'')" by simp
  have none: "first_text [explicit_text None,
      repository_rules_content local_missing_env ''octo/demo'' None,
      local_text local_missing_env] st0 = (Inr None, ?s')"
    by (simp add: local_missing_env_def explicit_text_def local_text_def demo_defs model_defs)
  note inst1 = load_rules_first_text [of local_missing_env "''octo/demo''" "Some ''- a''" None st0 st0]
  note inst2 = load_rules_first_text [of local_missing_env "''octo/demo''" None None st0 ?s']
  from inst1 [THEN conjunct2, THEN conjunct2, THEN conjunct1, THEN mp, OF given]
  have "load_rules local_missing_env ''octo/demo'' (Some ''- a'') None st0 =
      (Inr (parse_rules_from_yaml local_missing_env ''- a''), st0)"
    by simp
  then have explicit: "load_rules local_missing_env ''octo/demo'' (Some ''- a'') None st0 = (Inr [], st0)"
    by (simp add: parse_rules_from_yaml_def local_missing_env_def demo_defs)
  have empty: "load_rules local_missing_env ''octo/demo'' None None st0 = (Inr [], ?s')"
    using inst2 [THEN conjunct2, THEN conjunct2, THEN conjunct2, THEN mp, OF none] .
  from given explicit none empty show ?thesis
    by (intro conjI)
qed


section \<open>Outcomes of an analysis\<close>




lemma http_fetch_total: "\<exists>v s'. http_fetch E ep tok dflt s = (Inr v, s')"
  by (auto simp: http_fetch_def catch_def bind_def ret_def lift_def extern_def
      split: prod.splits sum.splits)

lemma evaluate_rules_total: "\<exists>vs s'. evaluate_rules E rules ev s = (Inr vs, s')"
  by (auto simp: evaluate_rules_def catch_def bind_def ret_def lift_def extern_def
      split: prod.splits sum.splits engine_out.splits)

lemma analyze_single_pr_cases:
  assumes "analyze_single_pr E ri n rules k tok t0 s = (Inr r, s')"
  shows "(success r \<and> error r = None \<and> rules_loaded r = k) \<or>
         r = failure k (elapsed E t0 s') (''PR #'' @ str_int n @ '' not found or access denied'') ri"
  using assms
  by (auto simp: analyze_single_pr_def bind_def lift_def fetch_pr_data_def
      split: prod.splits sum.splits if_splits)

lemma analyze_latest_prs_cases:
  assumes "analyze_latest_prs E ri rules k tok limit t0 bm s = (Inr r, s')"
  shows "(success r \<and> error r = None \<and> rules_loaded r = k) \<or>
         r = failure k (elapsed E t0 s') ''No open pull requests found in this repository.'' ri"
  using assms
  by (auto simp: analyze_latest_prs_def bind_def split: prod.splits sum.splits list.splits)



lemma char_of_digits:
  "char_of (48::nat) = CHR ''0''" "char_of (49::nat) = CHR ''1''" "char_of (50::nat) = CHR ''2''"
  "char_of (51::nat) = CHR ''3''" "char_of (52::nat) = CHR ''4''" "char_of (53::nat) = CHR ''5''"
  "char_of (54::nat) = CHR ''6''" "char_of (55::nat) = CHR ''7''" "char_of (56::nat) = CHR ''8''"
  "char_of (57::nat) = CHR ''9''"
  by code_simp+











section \<open>The calls of an analysis\<close>

lemma emitsI:
  "(\<And>s. \<exists>calls. trace (snd (m s)) = trace s @ calls \<and> list_all P calls) \<Longrightarrow> emits P m"
  by (simp add: emits_def)

lemma emitsD:
  "emits P m \<Longrightarrow> \<exists>calls. trace (snd (m s)) = trace s @ calls \<and> list_all P calls"
  by (simp add: emits_def)

lemma emits_ret: "emits P (ret x)"
  by (simp add: emits_def ret_def)

lemma emits_lift: "emits P (lift r)"
  by (simp add: emits_def lift_def)

lemma emits_const: "emits P (\<lambda>s. (r s, s))"
  by (simp add: emits_def)

lemma emits_extern: "P c \<Longrightarrow> emits P (extern c f)"
  by (auto simp: emits_def extern_def split: prod.splits)

lemma emits_bind:
  assumes "emits P m" and "\<And>x. emits P (f x)"
  shows "emits P (bind m f)"
proof (rule emitsI)
  fix s
  obtain r s1 where m: "m s = (r, s1)" by (cases "m s")
  from emitsD [OF assms(1), of s] m obtain c1 where c1: "trace s1 = trace s @ c1" "list_all P c1"
    by auto
  show "\<exists>calls. trace (snd (bind m f s)) = trace s @ calls \<and> list_all P calls"
  proof (cases r)
    case (Inl e)
    with m c1 show ?thesis by (auto simp: bind_def)
  next
    case (Inr x)
    from emitsD [OF assms(2), of x s1] obtain c2
      where "trace (snd (f x s1)) = trace s1 @ c2" "list_all P c2" by auto
    with Inr m c1 show ?thesis
      by (intro exI [of _ "c1 @ c2"]) (simp add: bind_def)
  qed
qed

lemma emits_catch:
  assumes "emits P m" and "\<And>e. emits P (h e)"
  shows "emits P (catch m h)"
proof (rule emitsI)
  fix s
  obtain r s1 where m: "m s = (r, s1)" by (cases "m s")
  from emitsD [OF assms(1), of s] m obtain c1 where c1: "trace s1 = trace s @ c1" "list_all P c1"
    by auto
  show "\<exists>calls. trace (snd (catch m h s)) = trace s @ calls \<and> list_all P calls"
  proof (cases r)
    case (Inr x)
    with m c1 show ?thesis by (auto simp: catch_def)
  next
    case (Inl e)
    from emitsD [OF assms(2), of e s1] obtain c2
      where "trace (snd (h e s1)) = trace s1 @ c2" "list_all P c2" by auto
    with Inl m c1 show ?thesis
      by (intro exI [of _ "c1 @ c2"]) (simp add: catch_def)
  qed
qed

lemma emits_if:
  "(c \<Longrightarrow> emits P a) \<Longrightarrow> (\<not> c \<Longrightarrow> emits P b) \<Longrightarrow> emits P (if c then a else b)"
  by simp

lemma emits_http_fetch:
  assumes "P GetAuthHeaders" "P GetSession" "P (SessionGet ep)"
  shows "emits P (http_fetch E ep tok dflt)"
  unfolding http_fetch_def
  by (intro emits_catch emits_bind emits_if emits_extern emits_ret emits_lift assms)

lemma emits_fetch_codeowners_from:
  assumes "\<And>path. path \<in> set paths \<Longrightarrow> P (GetFileContent r path)"
  shows "emits P (fetch_codeowners_from E r tok paths)"
  using assms
proof (induction paths)
  case Nil
  show ?case by (simp add: emits_def)
next
  case (Cons path paths)
  have probe: "emits P (probe_codeowners E r tok path)"
    unfolding probe_codeowners_def
    by (intro emits_catch emits_bind emits_extern emits_ret Cons.prems) simp
  have rest: "emits P (fetch_codeowners_from E r tok paths)"
    by (rule Cons.IH) (simp add: Cons.prems)
  show ?case
  proof (rule emitsI)
    fix s
    obtain out s1 where p: "probe_codeowners E r tok path s = (out, s1)"
      by (cases "probe_codeowners E r tok path s")
    from emitsD [OF probe, of s] p obtain c1 where c1: "trace s1 = trace s @ c1" "list_all P c1"
      by auto
    from emitsD [OF rest, of s1] obtain c2
      where c2: "trace (snd (fetch_codeowners_from E r tok paths s1)) = trace s1 @ c2" "list_all P c2"
      by auto
    show "\<exists>calls. trace (snd (fetch_codeowners_from E r tok (path # paths) s)) = trace s @ calls \<and>
        list_all P calls"
    proof (cases "\<exists>content. out = Inr (Some content)")
      case True
      with p c1 show ?thesis by auto
    next
      case False
      then have "fetch_codeowners_from E r tok (path # paths) s =
          fetch_codeowners_from E r tok paths s1"
        using p by (auto split: sum.splits option.splits)
      with c1 c2 show ?thesis
        by (intro exI [of _ "c1 @ c2"]) simp
    qed
  qed
qed

lemma emits_build_event_data: "emits (per_pr_call r) (build_event_data E r prd tok)"
  unfolding build_event_data_def fetch_pr_reviews_def fetch_pr_files_def fetch_codeowners_def
  by (intro emits_bind emits_if emits_lift emits_ret emits_http_fetch emits_fetch_codeowners_from)
    simp_all

lemma emits_case_engine_out:
  assumes "emits P a" "emits P b" "\<And>raws. emits P (f raws)"
  shows "emits P (case out of NoEvaluationResult \<Rightarrow> a | NoViolationsAttr \<Rightarrow> b | RawViolations raws \<Rightarrow> f raws)"
  using assms by (cases out) simp_all

lemma emits_evaluate_rules: "emits (per_pr_call r) (evaluate_rules E rules ev)"
  unfolding evaluate_rules_def
  by (intro emits_catch emits_bind emits_lift emits_extern emits_ret emits_case_engine_out)
    simp_all

lemma analyze_prs_calls:
  "\<exists>calls. trace (snd (analyze_prs E r rules tok prs acc s)) = trace s @ calls \<and>
     list_all (per_pr_call r) calls"
proof (induction prs arbitrary: acc s)
  case Nil
  show ?case by simp
next
  case (Cons pr prs)
  let ?m = "bind (build_event_data E r (JDict pr) tok) (evaluate_rules E rules)"
  have "emits (per_pr_call r) ?m"
    by (intro emits_bind emits_build_event_data emits_evaluate_rules)
  from emitsD [OF this, of s] obtain c1
    where c1: "trace (snd (?m s)) = trace s @ c1" "list_all (per_pr_call r) c1"
    by auto
  obtain acc' s1 where step: "analyze_pr E r rules tok pr acc s = (acc', s1)"
    by (cases "analyze_pr E r rules tok pr acc s")
  then have "s1 = snd (?m s)"
    by (auto simp: analyze_pr_def Let_def split: prod.splits sum.splits)
  with c1 have s1: "trace s1 = trace s @ c1" by simp
  from Cons.IH [of acc' s1] obtain c2
    where "trace (snd (analyze_prs E r rules tok prs acc' s1)) = trace s1 @ c2"
      "list_all (per_pr_call r) c2" by auto
  with step s1 c1 show ?case
    by (intro exI [of _ "c1 @ c2"]) simp
qed



lemma fetch_prs_trace:
  "trace (snd (fetch_prs E r tok limit s)) =
     trace s @ [if 20 < limit then FetchAllPullRequests r limit else ListPullRequests r limit]"
  by (auto simp: fetch_prs_def fetch_open_prs_def fetch_all_prs_paginated_def catch_def
      extern_def ret_def split: prod.splits sum.splits)

lemma analyze_latest_prs_run:
  assumes "fetch_prs E (full_name ri) tok limit s = (Inr prs, s1)"
  shows "\<exists>r. analyze_latest_prs E ri rules k tok limit t0 bm s =
           (Inr r, if prs = [] then s1
                   else snd (analyze_prs E (full_name ri) rules tok prs ([], []) s1))"
proof (cases prs)
  case Nil
  with assms show ?thesis by (simp add: analyze_latest_prs_def bind_def)
next
  case (Cons p ps)
  obtain vs sums s' where "analyze_prs E (full_name ri) rules tok prs ([], []) s1 = ((vs, sums), s')"
    by (cases "analyze_prs E (full_name ri) rules tok prs ([], []) s1") auto
  with assms Cons show ?thesis
    by (simp add: analyze_latest_prs_def bind_def del: analyze_prs.simps)
qed






section \<open>The number of rules loaded\<close>

lemma analyze_single_pr_calls:
  "emits (per_pr_call (full_name ri)) (analyze_single_pr E ri n rules k tok t0)"
  unfolding analyze_single_pr_def fetch_pr_data_def
  by (intro emits_bind emits_if emits_lift emits_const emits_http_fetch
      emits_build_event_data emits_evaluate_rules) simp_all

lemma analyze_latest_prs_calls:
  "\<exists>calls. trace (snd (analyze_latest_prs E ri rules k tok limit t0 bm s)) = trace s @ calls \<and>
     list_all (\<lambda>c. per_pr_call (full_name ri) c \<or> pr_list_call c) calls"
proof -
  obtain prs s1 where fetched: "fetch_prs E (full_name ri) tok limit s = (Inr prs, s1)"
    using fetch_prs_total [of E "full_name ri" tok limit s] by blast
  with fetch_prs_trace [of E "full_name ri" tok limit s]
  have s1: "trace s1 = trace s @ [if 20 < limit then FetchAllPullRequests (full_name ri) limit
                  else ListPullRequests (full_name ri) limit]"
    by simp
  from analyze_latest_prs_run [OF fetched, of rules k t0 bm]
  have run: "snd (analyze_latest_prs E ri rules k tok limit t0 bm s) =
      (if prs = [] then s1 else snd (analyze_prs E (full_name ri) rules tok prs ([], []) s1))"
    by auto
  from analyze_prs_calls [of E "full_name ri" rules tok prs "([], [])" s1]
  obtain calls where calls:
    "trace (snd (analyze_prs E (full_name ri) rules tok prs ([], []) s1)) = trace s1 @ calls"
    "list_all (per_pr_call (full_name ri)) calls"
    by blast
  show ?thesis
  proof (cases "prs = []")
    case True
    with run s1 show ?thesis
      by (intro exI [of _ "[if 20 < limit then FetchAllPullRequests (full_name ri) limit
                  else ListPullRequests (full_name ri) limit]"]) simp
  next
    case False
    with run s1 calls show ?thesis
      by (intro exI [of _ "(if 20 < limit then FetchAllPullRequests (full_name ri) limit
                  else ListPullRequests (full_name ri) limit) # calls"])
        (auto simp: list_all_iff)
  qed
qed

lemma analyze_body_after_rules:
  assumes lookup: "gh_get_repository E (full_name ri) tok (world s) = (Inr v, wa)" "truthy v"
    and resolved: "load_rules E (full_name ri) rules_yaml tok
      \<lparr>trace = trace s @ [GetRepository (full_name ri)], world = wa\<rparr> = (Inr rules, sb)"
    and body: "analyze_body E ri pr' rules_yaml tok limit bm t0 s = (Inr r, s')"
  shows "rules_loaded r = length rules \<and>
    (\<exists>calls. trace s' = trace sb @ calls \<and>
       list_all (\<lambda>c. per_pr_call (full_name ri) c \<or> pr_list_call c) calls)"
proof (cases "rules = []")
  case True
  with lookup resolved body show ?thesis
    by (auto simp: analyze_body_def bind_def extern_def failure_def)
next
  case False
  show ?thesis
  proof (cases "target_pr pr'")
    case None
    with False lookup resolved body
    have run: "analyze_latest_prs E ri rules (length rules) tok limit t0 bm sb = (Inr r, s')"
      by (simp add: analyze_body_def bind_def extern_def)
    from analyze_latest_prs_cases [OF run] have "rules_loaded r = length rules"
      by (auto simp: failure_def)
    with analyze_latest_prs_calls [of E ri rules "length rules" tok limit t0 bm sb] run
    show ?thesis by simp
  next
    case (Some n)
    with False lookup resolved body
    have run: "analyze_single_pr E ri n rules (length rules) tok t0 sb = (Inr r, s')"
      by (simp add: analyze_body_def bind_def extern_def)
    from analyze_single_pr_cases [OF run] have "rules_loaded r = length rules"
      by (auto simp: failure_def)
    moreover have "emits (per_pr_call (full_name ri))
        (analyze_single_pr E ri n rules (length rules) tok t0)"
      by (rule analyze_single_pr_calls)
    from emitsD [OF this, of sb] run
    have "\<exists>calls. trace s' = trace sb @ calls \<and> list_all (per_pr_call (full_name ri)) calls"
      by simp
    then have "\<exists>calls. trace s' = trace sb @ calls \<and>
        list_all (\<lambda>c. per_pr_call (full_name ri) c \<or> pr_list_call c) calls"
      by (auto simp: list_all_iff)
    ultimately show ?thesis by simp
  qed
qed

lemma analyze_without_rules:
  assumes lookup: "gh_get_repository E (full_name ri) tok (world s) = (Inr v, wa)"
    and none: "\<not> truthy v \<or>
      isl (fst (load_rules E (full_name ri) rules_yaml tok
        \<lparr>trace = trace s @ [GetRepository (full_name ri)], world = wa\<rparr>))"
  shows "rules_loaded (fst (analyze E ri pr_num rules_yaml tok limit bm s)) = 0"
proof (cases "truthy v")
  case False
  with lookup show ?thesis
    by (simp add: analyze_def analyze_body_def bind_def extern_def failure_def)
next
  case True
  with none obtain e sb where "load_rules E (full_name ri) rules_yaml tok
      \<lparr>trace = trace s @ [GetRepository (full_name ri)], world = wa\<rparr> = (Inl e, sb)"
    by (cases "load_rules E (full_name ri) rules_yaml tok
      \<lparr>trace = trace s @ [GetRepository (full_name ri)], world = wa\<rparr>") (auto simp: isl_def)
  with True lookup show ?thesis
    by (simp add: analyze_def analyze_body_def bind_def extern_def failure_def)
qed

text \<open>
  Claim C7 as it is worded covers every returned result. The result of the top-level handler
  does not follow it: here two rules are resolved, the payload of the target PR makes context
  building raise, and the result reports no rule loaded.
\<close>

theorem rules_loaded_counterexample:
  "load_rules malformed_pr_env (full_name octo_demo) None None
     \<lparr>trace = [GetRepository ''octo/demo''], world = 1\<rparr> =
     (Inr [[(''description'', JStr ''five'')], [(''description'', JStr ''second'')]],
      \<lparr>trace = [GetRepository ''octo/demo'',
                GetFileContent ''octo/demo'' ''.watchflow/rules.yaml''], world = 2\<rparr>) \<and>
   rules_loaded (fst (analyze malformed_pr_env octo_demo (Some 7) None None 5 False st0)) = 0 \<and>
   error (fst (analyze malformed_pr_env octo_demo (Some 7) None None 5 False st0)) =
     Some ''AttributeError: str object has no attribute get''"
  by (simp add: malformed_pr_env_def demo_defs model_defs)

text \<open>
  Claim C7, as amended. In every result that the body of the analysis returns, the number of
  rules loaded is the size of the rule set that was resolved (0 when it is empty), on the
  single-PR, the PR-not-found, the batch and the no-open-PR path alike; the rules are
  resolved once: every later call is the listing of the PRs or a call of processing one PR,
  never a read of a rules file. The number is 0 when the repository is not found and when
  resolution raises. A result made by the handler of an unexpected exception reports 0,
  whatever was resolved.
\<close>

theorem rules_loaded_fixed:
  "(gh_get_repository E (full_name ri) tok (world s) = (Inr v, wa) \<and> truthy v \<and>
    load_rules E (full_name ri) rules_yaml tok
      \<lparr>trace = trace s @ [GetRepository (full_name ri)], world = wa\<rparr> = (Inr rules, sb) \<and>
    analyze_body E ri (case pr_num of None \<Rightarrow> pr_number ri | Some n \<Rightarrow> Some n)
      rules_yaml tok limit bm (clock_ms E (world s)) s = (Inr r, s') \<longrightarrow>
      fst (analyze E ri pr_num rules_yaml tok limit bm s) = r \<and>
      rules_loaded r = length rules \<and>
      (\<exists>calls. trace s' = trace sb @ calls \<and>
         list_all (\<lambda>c. per_pr_call (full_name ri) c \<or> pr_list_call c) calls)) \<and>
   (gh_get_repository E (full_name ri) tok (world s) = (Inr v, wa) \<and>
    (\<not> truthy v \<or>
     isl (fst (load_rules E (full_name ri) rules_yaml tok
       \<lparr>trace = trace s @ [GetRepository (full_name ri)], world = wa\<rparr>))) \<longrightarrow>
      rules_loaded (fst (analyze E ri pr_num rules_yaml tok limit bm s)) = 0) \<and>
   (analyze_body E ri (case pr_num of None \<Rightarrow> pr_number ri | Some n \<Rightarrow> Some n)
      rules_yaml tok limit bm (clock_ms E (world s)) s = (Inl e, s') \<longrightarrow>
      rules_loaded (fst (analyze E ri pr_num rules_yaml tok limit bm s)) = 0)"
proof (intro conjI impI)
  assume path: "gh_get_repository E (full_name ri) tok (world s) = (Inr v, wa) \<and> truthy v \<and>
    load_rules E (full_name ri) rules_yaml tok
      \<lparr>trace = trace s @ [GetRepository (full_name ri)], world = wa\<rparr> = (Inr rules, sb) \<and>
    analyze_body E ri (case pr_num of None \<Rightarrow> pr_number ri | Some n \<Rightarrow> Some n)
      rules_yaml tok limit bm (clock_ms E (world s)) s = (Inr r, s')"
  then show "fst (analyze E ri pr_num rules_yaml tok limit bm s) = r"
    by (simp add: analyze_def)
  from path have "rules_loaded r = length rules \<and>
    (\<exists>calls. trace s' = trace sb @ calls \<and>
       list_all (\<lambda>c. per_pr_call (full_name ri) c \<or> pr_list_call c) calls)"
    by (elim conjE) (rule analyze_body_after_rules)
  then show "rules_loaded r = length rules"
    and "\<exists>calls. trace s' = trace sb @ calls \<and>
       list_all (\<lambda>c. per_pr_call (full_name ri) c \<or> pr_list_call c) calls"
    by simp_all
next
  assume "gh_get_repository E (full_name ri) tok (world s) = (Inr v, wa) \<and>
    (\<not> truthy v \<or>
     isl (fst (load_rules E (full_name ri) rules_yaml tok
       \<lparr>trace = trace s @ [GetRepository (full_name ri)], world = wa\<rparr>)))"
  then show "rules_loaded (fst (analyze E ri pr_num rules_yaml tok limit bm s)) = 0"
    by (elim conjE) (rule analyze_without_rules)
next
  assume "analyze_body E ri (case pr_num of None \<Rightarrow> pr_number ri | Some n \<Rightarrow> Some n)
      rules_yaml tok limit bm (clock_ms E (world s)) s = (Inl e, s')"
  then show "rules_loaded (fst (analyze E ri pr_num rules_yaml tok limit bm s)) = 0"
    by (simp add: analyze_def failure_def)
qed


theorem rules_loaded_fixed_witness:
  "fst (analyze demo_batch_env octo_demo (Some 7) None None 5 False st0) =
     failure 2 5 ''PR #7 not found or access denied'' octo_demo \<and>
   rules_loaded (failure 2 5 ''PR #7 not found or access denied'' octo_demo) =
     length [[(''description'', JStr ''five'')], [(''description'', JStr ''second'')]] \<and>
   rules_loaded (fst (analyze repo_missing_env octo_demo None None None 5 False st0)) = 0 \<and>
   rules_loaded (fst (analyze malformed_pr_env octo_demo (Some 7) None None 5 False st0)) = 0"
proof -
  note defs = repo_missing_env_def malformed_pr_env_def demo_defs model_defs
  let ?five = "[[(''description'', JStr ''five'')], [(''description'', JStr ''second'')]]"
  let ?sb = "\<lparr>trace = [GetRepository ''octo/demo'',
                 GetFileContent ''octo/demo'' ''.watchflow/rules.yaml''], world = 2::nat\<rparr>"
  let ?sc = "\<lparr>trace = [GetRepository ''octo/demo'',
                 GetFileContent ''octo/demo'' ''.watchflow/rules.yaml'', GetAuthHeaders, GetSession,
                 SessionGet (PullEndpoint ''octo/demo'' (JInt 7))], world = 5::nat\<rparr>"
  let ?r = "failure 2 5 ''PR #7 not found or access denied'' octo_demo"
  have found: "gh_get_repository demo_batch_env (full_name octo_demo) None (world st0) =
      (Inr (JDict [(''id'', JInt 1)]), 1)"
    by (simp add: defs)
  have truthy: "truthy (JDict [(''id'', JInt 1)])" by simp
  have rules: "load_rules demo_batch_env (full_name octo_demo) None None
      \<lparr>trace = trace st0 @ [GetRepository (full_name octo_demo)], world = 1\<rparr> = (Inr ?five, ?sb)"
    by (simp add: defs)
  have body: "analyze_body demo_batch_env octo_demo
      (case Some 7 of None \<Rightarrow> pr_number octo_demo | Some n \<Rightarrow> Some n) None None 5 False
      (clock_ms demo_batch_env (world st0)) st0 = (Inr ?r, ?sc)"
    by (simp add: defs str_int_def char_of_digits)
  note inst = rules_loaded_fixed [where E = demo_batch_env and ri = octo_demo and tok = None
      and s = st0 and wa = 1 and pr_num = "Some 7" and rules_yaml = None and limit = 5
      and bm = False, THEN conjunct1, THEN mp,
      OF conjI [OF found conjI [OF truthy conjI [OF rules body]]]]
  have r1: "fst (analyze demo_batch_env octo_demo (Some 7) None None 5 False st0) = ?r"
    using inst by (rule conjunct1)
  have r2: "rules_loaded ?r = length ?five"
    using inst by (elim conjE)
  have missing: "gh_get_repository repo_missing_env (full_name octo_demo) None (world st0) =
      (Inr JNull, 1)"
    by (simp add: defs)
  have falsy: "\<not> truthy JNull \<or>
     isl (fst (load_rules repo_missing_env (full_name octo_demo) None None
       \<lparr>trace = trace st0 @ [GetRepository (full_name octo_demo)], world = 1\<rparr>))"
    by simp
  have r3: "rules_loaded (fst (analyze repo_missing_env octo_demo None None None 5 False st0)) = 0"
    using rules_loaded_fixed [where E = repo_missing_env and ri = octo_demo and tok = None
      and s = st0 and pr_num = None and rules_yaml = None and limit = 5 and bm = False,
      THEN conjunct2, THEN conjunct1, THEN mp, OF conjI [OF missing falsy]] .
  have raised: "analyze_body malformed_pr_env octo_demo
      (case Some 7 of None \<Rightarrow> pr_number octo_demo | Some n \<Rightarrow> Some n) None None 5 False
      (clock_ms malformed_pr_env (world st0)) st0 =
      (Inl (Exn ''AttributeError: str object has no attribute get''), ?sc)"
    by (simp add: defs)
  have r4: "rules_loaded (fst (analyze malformed_pr_env octo_demo (Some 7) None None 5 False st0)) = 0"
    using rules_loaded_fixed [where E = malformed_pr_env and ri = octo_demo and tok = None
      and s = st0 and pr_num = "Some 7" and rules_yaml = None and limit = 5 and bm = False,
      THEN conjunct2, THEN conjunct2, THEN mp, OF raised] .
  from r1 r2 r3 r4 show ?thesis
    by (intro conjI)
qed


section \<open>An engine that raises\<close>

lemma http_fetch_engine:
  "http_fetch (E\<lparr>engine_execute := g\<rparr>) ep tok dflt = http_fetch E ep tok dflt"
  by (simp add: http_fetch_def cong: if_cong)

lemma probe_codeowners_engine:
  "probe_codeowners (E\<lparr>engine_execute := g\<rparr>) r tok path = probe_codeowners E r tok path"
  by (simp add: probe_codeowners_def)

lemma fetch_codeowners_from_engine:
  "fetch_codeowners_from (E\<lparr>engine_execute := g\<rparr>) r tok paths s =
   fetch_codeowners_from E r tok paths s"
  by (induction paths arbitrary: s)
    (simp_all add: probe_codeowners_engine split: prod.splits sum.splits option.splits)

lemma fetch_codeowners_engine:
  "fetch_codeowners (E\<lparr>engine_execute := g\<rparr>) r tok = fetch_codeowners E r tok"
  by (rule ext) (simp add: fetch_codeowners_def fetch_codeowners_from_engine)

lemma build_event_data_engine:
  "build_event_data (E\<lparr>engine_execute := g\<rparr>) r prd tok = build_event_data E r prd tok"
  by (simp add: build_event_data_def fetch_pr_reviews_def fetch_pr_files_def http_fetch_engine
      fetch_codeowners_engine cong: if_cong)

lemma parse_entry_engine:
  "parse_entry (E\<lparr>engine_execute := g\<rparr>) rule_data = parse_entry E rule_data"
  by (cases rule_data) (simp_all add: parse_entry_def)

lemma parse_entries_engine:
  "parse_entries (E\<lparr>engine_execute := g\<rparr>) acc entries = parse_entries E acc entries"
  by (induction entries arbitrary: acc) (simp_all add: parse_entry_engine)

lemma parse_rules_from_yaml_engine:
  "parse_rules_from_yaml (E\<lparr>engine_execute := g\<rparr>) content = parse_rules_from_yaml E content"
  by (simp add: parse_rules_from_yaml_def parse_entries_engine
      split: sum.splits json.splits option.splits)

lemma repository_or_local_rules_engine:
  "repository_or_local_rules (E\<lparr>engine_execute := g\<rparr>) r tok = repository_or_local_rules E r tok"
  by (simp add: repository_or_local_rules_def repository_rules_content_def
      local_rules_def parse_rules_from_yaml_engine cong: if_cong option.case_cong)

lemma load_rules_engine:
  "load_rules (E\<lparr>engine_execute := g\<rparr>) r rules_yaml tok = load_rules E r rules_yaml tok"
  by (simp add: load_rules_def repository_or_local_rules_engine parse_rules_from_yaml_engine
      cong: if_cong option.case_cong)

lemma fetch_prs_engine:
  "fetch_prs (E\<lparr>engine_execute := g\<rparr>) r tok limit = fetch_prs E r tok limit"
  by (simp add: fetch_prs_def fetch_open_prs_def fetch_all_prs_paginated_def)

lemma fetch_pr_data_engine:
  "fetch_pr_data (E\<lparr>engine_execute := g\<rparr>) r n tok = fetch_pr_data E r n tok"
  by (simp add: fetch_pr_data_def http_fetch_engine)

lemma elapsed_engine: "elapsed (E\<lparr>engine_execute := g\<rparr>) t0 s = elapsed E t0 s"
  by (simp add: elapsed_def)

lemma evaluate_rules_raising:
  "evaluate_rules (E\<lparr>engine_execute := (\<lambda>ev rules w. (Inl e, f ev rules w))\<rparr>) rules =
   evaluate_rules (E\<lparr>engine_execute := (\<lambda>ev rules w. (Inr (RawViolations []), f ev rules w))\<rparr>)
     rules"
  by (intro ext)
    (simp add: evaluate_rules_def catch_def bind_def lift_def ret_def extern_def
      split: sum.splits)

lemma analyze_pr_raising:
  "analyze_pr (E\<lparr>engine_execute := (\<lambda>ev rules w. (Inl e, f ev rules w))\<rparr>) r rules tok pr acc s =
   analyze_pr (E\<lparr>engine_execute := (\<lambda>ev rules w. (Inr (RawViolations []), f ev rules w))\<rparr>)
     r rules tok pr acc s"
  by (simp add: analyze_pr_def build_event_data_engine evaluate_rules_raising Let_def
      cong: prod.case_cong sum.case_cong)

lemma analyze_prs_raising:
  "analyze_prs (E\<lparr>engine_execute := (\<lambda>ev rules w. (Inl e, f ev rules w))\<rparr>) r rules tok prs acc s =
   analyze_prs (E\<lparr>engine_execute := (\<lambda>ev rules w. (Inr (RawViolations []), f ev rules w))\<rparr>)
     r rules tok prs acc s"
  by (induction prs arbitrary: acc s) (simp_all add: analyze_pr_raising split: prod.splits)

lemma analyze_single_pr_raising:
  "analyze_single_pr (E\<lparr>engine_execute := (\<lambda>ev rules w. (Inl e, f ev rules w))\<rparr>)
     ri n rules k tok t0 =
   analyze_single_pr (E\<lparr>engine_execute := (\<lambda>ev rules w. (Inr (RawViolations []), f ev rules w))\<rparr>)
     ri n rules k tok t0"
  by (simp add: analyze_single_pr_def fetch_pr_data_engine build_event_data_engine
      evaluate_rules_raising elapsed_engine cong: if_cong)

lemma analyze_latest_prs_raising:
  "analyze_latest_prs (E\<lparr>engine_execute := (\<lambda>ev rules w. (Inl e, f ev rules w))\<rparr>)
     ri rules k tok limit t0 bm =
   analyze_latest_prs (E\<lparr>engine_execute := (\<lambda>ev rules w. (Inr (RawViolations []), f ev rules w))\<rparr>)
     ri rules k tok limit t0 bm"
  by (simp add: analyze_latest_prs_def fetch_prs_engine analyze_prs_raising elapsed_engine
      del: analyze_prs.simps cong: list.case_cong prod.case_cong)

lemma analyze_raising:
  "analyze (E\<lparr>engine_execute := (\<lambda>ev rules w. (Inl e, f ev rules w))\<rparr>)
     ri pr_num rules_yaml tok limit bm s =
   analyze (E\<lparr>engine_execute := (\<lambda>ev rules w. (Inr (RawViolations []), f ev rules w))\<rparr>)
     ri pr_num rules_yaml tok limit bm s"
proof -
  let ?E1 = "E\<lparr>engine_execute := (\<lambda>ev rules w. (Inl e, f ev rules w))\<rparr>"
  let ?E2 = "E\<lparr>engine_execute := (\<lambda>ev rules w. (Inr (RawViolations []), f ev rules w))\<rparr>"
  have body: "analyze_body ?E1 ri pr' rules_yaml tok limit bm t0 =
      analyze_body ?E2 ri pr' rules_yaml tok limit bm t0" for pr' t0
    by (simp add: analyze_body_def load_rules_engine analyze_single_pr_raising
        analyze_latest_prs_raising elapsed_engine cong: if_cong option.case_cong)
  show ?thesis
    by (simp add: analyze_def body elapsed_engine cong: prod.case_cong sum.case_cong)
qed


lemma build_event_data_details:
  assumes "build_event_data E r prd tok s = (Inr ev, s')"
  shows "pull_request_details ev = prd \<and> (\<exists>d. prd = JDict d)"
proof (cases prd)
  case (JDict d)
  with assms show ?thesis
    by (auto simp: build_event_data_def bind_def lift_def ret_def
        split: prod.splits sum.splits if_splits)
qed (use assms in \<open>simp_all add: build_event_data_def bind_def lift_def\<close>)

lemma evaluate_rules_crash:
  assumes "engine_execute E ev rules (world s) = (Inl e, wa)"
  shows "fst (evaluate_rules E rules ev s) = Inr []"
  using assms
  by (simp add: evaluate_rules_def catch_def bind_def lift_def ret_def extern_def
      split: sum.splits)

lemma analyze_single_pr_crash:
  assumes pr: "fetch_pr_data E (full_name ri) n tok s = (Inr prd, sa)" "truthy prd"
    and built: "build_event_data E (full_name ri) prd tok sa = (Inr ev, sb)"
    and crash: "engine_execute E ev rules (world sb) = (Inl e, wc)"
  shows "\<exists>r s'. analyze_single_pr E ri n rules k tok t0 s = (Inr r, s') \<and>
           success r \<and> error r = None \<and> violations r = [] \<and>
           map sm_error (prs_analyzed r) = [None] \<and>
           map sm_violations_count (prs_analyzed r) = [0]"
proof -
  from build_event_data_details [OF built] obtain d
    where d: "prd = JDict d" "pull_request_details ev = JDict d" by auto
  from crash d have "evaluate_rules E rules ev sb =
      (Inr [], \<lparr>trace = trace sb @ [EngineExecute], world = wc\<rparr>)"
    by (simp add: evaluate_rules_def catch_def bind_def lift_def ret_def extern_def)
  with pr built d show ?thesis
    by (simp add: analyze_single_pr_def bind_def lift_def)
qed

lemma analyze_pr_error_branch:
  "sm_error (last (snd (fst (analyze_pr E r rules tok pr acc s)))) =
     (case fst (build_event_data E r (JDict pr) tok s) of
        Inl e \<Rightarrow> Some (str_exn e)
      | Inr ev \<Rightarrow> None)"
proof -
  obtain out sa where built: "build_event_data E r (JDict pr) tok s = (out, sa)"
    by (cases "build_event_data E r (JDict pr) tok s")
  show ?thesis
  proof (cases out)
    case (Inl e)
    with built show ?thesis by (simp add: analyze_pr_def bind_def)
  next
    case (Inr ev)
    obtain vs sb where "evaluate_rules E rules ev sa = (Inr vs, sb)"
      using evaluate_rules_total [of E rules ev sa] by blast
    with Inr built show ?thesis by (simp add: analyze_pr_def bind_def)
  qed
qed

text \<open>
  Claim C10. Rule evaluation never raises, and when the engine raises it yields no
  violation. An analysis with an engine that raises is the analysis with an engine that
  reports no violation, result and calls alike. In single-PR mode, once the PR is found and
  its context is built, a raising engine leaves a successful result without error and without
  violations. In the batch loop the summary of a PR holds an error exactly when building its
  context raised, whatever the engine does.
\<close>

theorem evaluator_crash_is_swallowed:
  "(\<exists>vs s'. evaluate_rules E rules ev s = (Inr vs, s')) \<and>
   (engine_execute E ev rules (world s) = (Inl e, wa) \<longrightarrow>
      fst (evaluate_rules E rules ev s) = Inr []) \<and>
   analyze (E\<lparr>engine_execute := (\<lambda>ev rules w. (Inl e, f ev rules w))\<rparr>)
       ri pr_num rules_yaml tok limit bm s =
     analyze (E\<lparr>engine_execute := (\<lambda>ev rules w. (Inr (RawViolations []), f ev rules w))\<rparr>)
       ri pr_num rules_yaml tok limit bm s \<and>
   (fetch_pr_data E (full_name ri) n tok s = (Inr prd, sa) \<and> truthy prd \<and>
    build_event_data E (full_name ri) prd tok sa = (Inr ev, sb) \<and>
    engine_execute E ev rules (world sb) = (Inl e, wc) \<longrightarrow>
      (\<exists>r s'. analyze_single_pr E ri n rules k tok t0 s = (Inr r, s') \<and>
         success r \<and> error r = None \<and> violations r = [] \<and>
         map sm_error (prs_analyzed r) = [None] \<and>
         map sm_violations_count (prs_analyzed r) = [0])) \<and>
   sm_error (last (snd (fst (analyze_pr E (full_name ri) rules tok pr acc s)))) =
     (case fst (build_event_data E (full_name ri) (JDict pr) tok s) of
        Inl e \<Rightarrow> Some (str_exn e)
      | Inr ev \<Rightarrow> None)"
proof (intro conjI impI)
  show "\<exists>vs s'. evaluate_rules E rules ev s = (Inr vs, s')"
    by (rule evaluate_rules_total)
  show "analyze (E\<lparr>engine_execute := (\<lambda>ev rules w. (Inl e, f ev rules w))\<rparr>)
       ri pr_num rules_yaml tok limit bm s =
     analyze (E\<lparr>engine_execute := (\<lambda>ev rules w. (Inr (RawViolations []), f ev rules w))\<rparr>)
       ri pr_num rules_yaml tok limit bm s"
    by (rule analyze_raising)
  show "sm_error (last (snd (fst (analyze_pr E (full_name ri) rules tok pr acc s)))) =
     (case fst (build_event_data E (full_name ri) (JDict pr) tok s) of
        Inl e \<Rightarrow> Some (str_exn e)
      | Inr ev \<Rightarrow> None)"
    by (rule analyze_pr_error_branch)
next
  assume "engine_execute E ev rules (world s) = (Inl e, wa)"
  then show "fst (evaluate_rules E rules ev s) = Inr []"
    by (rule evaluate_rules_crash)
next
  assume "fetch_pr_data E (full_name ri) n tok s = (Inr prd, sa) \<and> truthy prd \<and>
    build_event_data E (full_name ri) prd tok sa = (Inr ev, sb) \<and>
    engine_execute E ev rules (world sb) = (Inl e, wc)"
  then show "\<exists>r s'. analyze_single_pr E ri n rules k tok t0 s = (Inr r, s') \<and>
         success r \<and> error r = None \<and> violations r = [] \<and>
         map sm_error (prs_analyzed r) = [None] \<and>
         map sm_violations_count (prs_analyzed r) = [0]"
    by (elim conjE) (rule analyze_single_pr_crash)
qed



theorem evaluator_crash_is_swallowed_witness:
  "engine_execute crashing_env demo_event [] (world st0) = (Inl (Exn ''boom''), 1) \<and>
   fst (evaluate_rules crashing_env [] demo_event st0) = Inr [] \<and>
   fetch_pr_data crashing_env (full_name octo_demo) 7 None st0 =
     (Inr (JDict [(''number'', JInt 7)]),
      \<lparr>trace = [GetAuthHeaders, GetSession, SessionGet (PullEndpoint ''octo/demo'' (JInt 7))],
       world = 3\<rparr>) \<and>
   (\<exists>r s'. analyze_single_pr crashing_env octo_demo 7 [] 0 None 0 st0 = (Inr r, s') \<and>
      success r \<and> error r = None \<and> violations r = [] \<and>
      map sm_error (prs_analyzed r) = [None] \<and>
      map sm_violations_count (prs_analyzed r) = [0])"
proof -
  note defs = crashing_env_def demo_event_def demo_defs model_defs
  let ?sa = "\<lparr>trace = [GetAuthHeaders, GetSession, SessionGet (PullEndpoint ''octo/demo'' (JInt 7))],
       world = 3::nat\<rparr>"
  let ?sb = "\<lparr>trace = [GetAuthHeaders, GetSession, SessionGet (PullEndpoint ''octo/demo'' (JInt 7)),
       GetAuthHeaders, GetSession, SessionGet (ReviewsEndpoint ''octo/demo'' (JInt 7)),
       GetAuthHeaders, GetSession, SessionGet (FilesEndpoint ''octo/demo'' (JInt 7)),
       GetFileContent ''octo/demo'' ''.github/CODEOWNERS'',
       GetFileContent ''octo/demo'' ''CODEOWNERS''], world = 11::nat\<rparr>"
  have crash: "engine_execute crashing_env demo_event [] (world st0) = (Inl (Exn ''boom''), 1)"
    by (simp add: defs)
  have swallowed: "fst (evaluate_rules crashing_env [] demo_event st0) = Inr []"
    using evaluator_crash_is_swallowed [where E = crashing_env and ev = demo_event
        and rules = "[]" and s = st0 and wa = 1 and e = "Exn ''boom''",
        THEN conjunct2, THEN conjunct1, THEN mp, OF crash] .
  have pr: "fetch_pr_data crashing_env (full_name octo_demo) 7 None st0 =
      (Inr (JDict [(''number'', JInt 7)]), ?sa)"
    by (simp add: defs)
  have truthy: "truthy (JDict [(''number'', JInt 7)])" by simp
  have built: "build_event_data crashing_env (full_name octo_demo) (JDict [(''number'', JInt 7)])
      None ?sa = (Inr demo_event, ?sb)"
    by (simp add: defs)
  have crash': "engine_execute crashing_env demo_event [] (world ?sb) = (Inl (Exn ''boom''), 12)"
    by (simp add: defs)
  have single: "\<exists>r s'. analyze_single_pr crashing_env octo_demo 7 [] 0 None 0 st0 = (Inr r, s') \<and>
      success r \<and> error r = None \<and> violations r = [] \<and>
      map sm_error (prs_analyzed r) = [None] \<and>
      map sm_violations_count (prs_analyzed r) = [0]"
    using evaluator_crash_is_swallowed [where E = crashing_env and ri = octo_demo and n = 7
        and tok = None and s = st0 and rules = "[]" and e = "Exn ''boom''" and k = 0 and ?t0.0 = 0,
        THEN conjunct2, THEN conjunct2, THEN conjunct2, THEN conjunct1, THEN mp,
        OF conjI [OF pr conjI [OF truthy conjI [OF built crash']]]] .
  from crash swallowed pr single show ?thesis
    by (intro conjI)
qed


section \<open>Building the context of a PR\<close>

lemma http_fetch_fails:
  assumes "sub_fetch_fails E ep tok (world s)"
  shows "fst (http_fetch E ep tok dflt s) = Inr dflt"
proof -
  obtain h wa where h: "gh_get_auth_headers E tok (world s) = (h, wa)"
    by (cases "gh_get_auth_headers E tok (world s)")
  show ?thesis
  proof (cases h)
    case (Inl e)
    with h show ?thesis
      by (simp add: http_fetch_def catch_def bind_def ret_def extern_def)
  next
    case (Inr headers)
    note headers = this
    show ?thesis
    proof (cases "truthy headers")
      case False
      with h headers show ?thesis
        by (simp add: http_fetch_def catch_def bind_def ret_def extern_def)
    next
      case True
      obtain se wb where se: "gh_get_session E wa = (se, wb)"
        by (cases "gh_get_session E wa")
      show ?thesis
      proof (cases se)
        case (Inl e)
        with h headers True se show ?thesis
          by (simp add: http_fetch_def catch_def bind_def ret_def extern_def)
      next
        case (Inr session)
        note session = this
        obtain resp wc where resp: "gh_session_get E ep headers wb = (resp, wc)"
          by (cases "gh_session_get E ep headers wb")
        show ?thesis
        proof (cases resp)
          case (Inl e)
          with h headers True se session resp show ?thesis
            by (simp add: http_fetch_def catch_def bind_def ret_def extern_def)
        next
          case (Inr response)
          with assms h headers True se session resp
          have "fst response \<noteq> 200 \<or> isl (snd response)"
            by (simp add: sub_fetch_fails_def)
          with h headers True se session resp Inr show ?thesis
            by (auto simp: http_fetch_def catch_def bind_def ret_def lift_def extern_def isl_def)
        qed
      qed
    qed
  qed
qed

lemma probe_codeowners_answer:
  assumes "gh_get_file_content E r path tok (world s) = (res, w')"
  shows "probe_codeowners E r tok path s =
           (Inr (if hit res then hit_content (Some res) else None),
            \<lparr>trace = trace s @ [GetFileContent r path], world = w'\<rparr>)"
proof (cases res)
  case (Inl e)
  with assms show ?thesis
    by (simp add: probe_codeowners_def catch_def bind_def ret_def extern_def)
next
  case (Inr c)
  with assms show ?thesis
    by (cases c) (simp_all add: probe_codeowners_def catch_def bind_def ret_def extern_def)
qed

lemma fetch_codeowners_from_first_hit:
  "fst (fetch_codeowners_from E r tok paths s) =
     Inr (hit_content (find hit (probe_all E r tok paths (world s)))) \<and>
   trace (snd (fetch_codeowners_from E r tok paths s)) =
     trace s @ map (GetFileContent r)
       (take (Suc (length (takeWhile (\<lambda>x. \<not> hit x) (probe_all E r tok paths (world s))))) paths)"
proof (induction paths arbitrary: s)
  case Nil
  show ?case by simp
next
  case (Cons path paths)
  obtain res w' where answer: "gh_get_file_content E r path tok (world s) = (res, w')"
    by (cases "gh_get_file_content E r path tok (world s)")
  let ?s' = "\<lparr>trace = trace s @ [GetFileContent r path], world = w'\<rparr>"
  note probe = probe_codeowners_answer [OF answer]
  show ?case
  proof (cases "hit res")
    case True
    then obtain c where "res = Inr (Some c)" "c \<noteq> []"
      by (cases res rule: hit.cases) auto
    with answer probe show ?thesis by simp
  next
    case False
    with answer probe Cons.IH [of ?s'] show ?thesis by simp
  qed
qed

lemma map_exn_changed_file:
  "list_all is_mapping fs \<Longrightarrow> \<exists>changed. map_exn changed_file fs = Inr changed"
proof (induction fs)
  case Nil
  show ?case by simp
next
  case (Cons f fs)
  then obtain d where "f = JDict d" by (cases f) auto
  with Cons show ?case by (auto simp: changed_file_def then_exn_def)
qed

lemma changed_files_of_payload:
  assumes "files_payload_ok fs"
  shows "\<exists>items changed. py_iter (or_empty_list fs) = Inr items \<and>
           map_exn changed_file items = Inr changed \<and> (\<not> truthy fs \<longrightarrow> changed = [])"
proof (cases "truthy fs")
  case False
  then show ?thesis by (simp add: or_empty_list_def)
next
  case True
  with assms obtain xs where "fs = JList xs" "list_all is_mapping xs"
    by (cases fs) auto
  with True map_exn_changed_file [of xs] show ?thesis
    by (auto simp: or_empty_list_def)
qed

lemma login_of_payload:
  assumes "mapping_or_falsy user"
  shows "\<exists>login. py_get (or_empty_dict user) ''login'' = Inr login"
  using assms by (cases user) (simp_all add: or_empty_dict_def)

lemma build_event_data_built:
  assumes user: "mapping_or_falsy (dget d ''user'')"
    and number: "truthy (dget d ''number'')"
    and rv: "fetch_pr_reviews E r (dget d ''number'') tok s = (Inr rv, sa)"
    and fs: "fetch_pr_files E r (dget d ''number'') tok sa = (Inr fs, sb)"
    and ok: "files_payload_ok fs"
  shows "\<exists>ev. build_event_data E r (JDict d) tok s =
             (Inr ev, snd (fetch_codeowners E r tok sb)) \<and>
           pull_request_details ev = JDict d \<and>
           reviews ev = Some (or_empty_list rv) \<and>
           files ev = Some (or_empty_list fs) \<and>
           (\<exists>changed. changed_files ev = Some changed \<and> (\<not> truthy fs \<longrightarrow> changed = [])) \<and>
           codeowners_content ev =
             hit_content (find hit (probe_all E r tok codeowners_paths (world sb)))"
proof -
  from login_of_payload [OF user] obtain login
    where login: "py_get (or_empty_dict (dget d ''user'')) ''login'' = Inr login" by blast
  from changed_files_of_payload [OF ok] obtain items changed
    where items: "py_iter (or_empty_list fs) = Inr items"
      and changed: "map_exn changed_file items = Inr changed" "\<not> truthy fs \<longrightarrow> changed = []"
    by blast
  obtain out sc where co: "fetch_codeowners E r tok sb = (out, sc)"
    by (cases "fetch_codeowners E r tok sb")
  from fetch_codeowners_from_first_hit [of E r tok codeowners_paths sb] co
  have out: "out = Inr (hit_content (find hit (probe_all E r tok codeowners_paths (world sb))))"
    by (simp add: fetch_codeowners_def)
  have same: "(if provided c then c else None) = c"
    if "c = hit_content (find hit xs)" for c xs
  proof (cases "find hit xs")
    case None
    with that show ?thesis by simp
  next
    case (Some x)
    then have "hit x" by (auto simp: find_Some_iff)
    with Some that show ?thesis by (cases x rule: hit.cases) auto
  qed
  from login number rv fs items changed co out show ?thesis
    by (simp add: build_event_data_def bind_def lift_def ret_def same [OF refl])
qed


lemma fetch_codeowners_first_hit:
  "fst (fetch_codeowners E r tok s) =
     Inr (hit_content (find hit (probe_all E r tok codeowners_paths (world s)))) \<and>
   trace (snd (fetch_codeowners E r tok s)) =
     trace s @ map (GetFileContent r)
       (take (Suc (length (takeWhile (\<lambda>x. \<not> hit x)
          (probe_all E r tok codeowners_paths (world s))))) codeowners_paths)"
  unfolding fetch_codeowners_def by (rule fetch_codeowners_from_first_hit)

lemma build_event_data_tolerant:
  assumes user: "mapping_or_falsy (dget d ''user'')"
    and number: "truthy (dget d ''number'')"
    and rv: "fetch_pr_reviews E r (dget d ''number'') tok s = (Inr rv, sa)"
    and fs: "fetch_pr_files E r (dget d ''number'') tok sa = (Inr fs, sb)"
    and ok: "files_payload_ok fs"
  shows "\<exists>ev. build_event_data E r (JDict d) tok s =
             (Inr ev, snd (fetch_codeowners E r tok sb)) \<and>
           reviews ev = Some (or_empty_list rv) \<and>
           files ev = Some (or_empty_list fs) \<and>
           (sub_fetch_fails E (ReviewsEndpoint r (dget d ''number'')) tok (world s) \<longrightarrow>
              reviews ev = Some (JList [])) \<and>
           (sub_fetch_fails E (FilesEndpoint r (dget d ''number'')) tok (world sa) \<longrightarrow>
              files ev = Some (JList []) \<and> changed_files ev = Some []) \<and>
           codeowners_content ev =
             hit_content (find hit (probe_all E r tok codeowners_paths (world sb)))"
proof -
  from build_event_data_built [OF assms] obtain ev changed
    where ev: "build_event_data E r (JDict d) tok s = (Inr ev, snd (fetch_codeowners E r tok sb))"
      "reviews ev = Some (or_empty_list rv)" "files ev = Some (or_empty_list fs)"
      "changed_files ev = Some changed" "\<not> truthy fs \<longrightarrow> changed = []"
      "codeowners_content ev =
         hit_content (find hit (probe_all E r tok codeowners_paths (world sb)))"
    by blast
  have "rv = JList []" if "sub_fetch_fails E (ReviewsEndpoint r (dget d ''number'')) tok (world s)"
    using http_fetch_fails [OF that, of "JList []"] rv by (simp add: fetch_pr_reviews_def)
  moreover have "fs = JList []"
    if "sub_fetch_fails E (FilesEndpoint r (dget d ''number'')) tok (world sa)"
    using http_fetch_fails [OF that, of "JList []"] fs by (simp add: fetch_pr_files_def)
  ultimately show ?thesis
    using ev by (intro exI [of _ ev]) (auto simp: or_empty_list_def)
qed

text \<open>
  Claim C8 as it is worded has the building of a PR context never abort. It does abort on a
  payload that is not as expected: here the \<^verbatim>\<open>user\<close> entry of the PR is a string, and
  reading its login raises.
\<close>

theorem build_event_data_counterexample:
  "fst (build_event_data demo_batch_env ''octo/demo''
          (JDict [(''number'', JInt 2), (''title'', JStr ''two''), (''user'', JStr ''bob'')])
          None st0) =
     Inl (Exn ''AttributeError: str object has no attribute get'')"
  by (simp add: demo_defs model_defs)

text \<open>
  Claim C8, as amended. No failure of a sub-fetch aborts the building of a PR context. The
  reviews and the changed-files sub-fetch never raise, and one that fails (a step raises,
  there are no headers, the status is not 200, the body does not decode) gives the empty
  list. For a PR whose \<^verbatim>\<open>user\<close> entry is a mapping or falsy and whose files payload is a
  list of mappings or falsy (as it is after a failed sub-fetch), the context is built: after a
  failed reviews sub-fetch its reviews are empty, after a failed files sub-fetch its files
  and changed files are empty. CODEOWNERS is probed at \<^verbatim>\<open>.github/CODEOWNERS\<close>,
  \<^verbatim>\<open>CODEOWNERS\<close>, \<^verbatim>\<open>docs/CODEOWNERS\<close> in this order: the content is that of the first
  path that answers with content, the probing stops there, and no content is recorded when no
  path has any.
\<close>

theorem build_event_data_fault_tolerant:
  "(\<exists>v s'. fetch_pr_reviews E r n tok s = (Inr v, s')) \<and>
   (\<exists>v s'. fetch_pr_files E r n tok s = (Inr v, s')) \<and>
   (sub_fetch_fails E (ReviewsEndpoint r n) tok (world s) \<longrightarrow>
      fst (fetch_pr_reviews E r n tok s) = Inr (JList [])) \<and>
   (sub_fetch_fails E (FilesEndpoint r n) tok (world s) \<longrightarrow>
      fst (fetch_pr_files E r n tok s) = Inr (JList [])) \<and>
   (mapping_or_falsy (dget d ''user'') \<and> truthy (dget d ''number'') \<and>
    fetch_pr_reviews E r (dget d ''number'') tok s = (Inr rv, sa) \<and>
    fetch_pr_files E r (dget d ''number'') tok sa = (Inr fs, sb) \<and>
    files_payload_ok fs \<longrightarrow>
      (\<exists>ev. build_event_data E r (JDict d) tok s =
               (Inr ev, snd (fetch_codeowners E r tok sb)) \<and>
         reviews ev = Some (or_empty_list rv) \<and>
         files ev = Some (or_empty_list fs) \<and>
         (sub_fetch_fails E (ReviewsEndpoint r (dget d ''number'')) tok (world s) \<longrightarrow>
            reviews ev = Some (JList [])) \<and>
         (sub_fetch_fails E (FilesEndpoint r (dget d ''number'')) tok (world sa) \<longrightarrow>
            files ev = Some (JList []) \<and> changed_files ev = Some []) \<and>
         codeowners_content ev =
           hit_content (find hit (probe_all E r tok codeowners_paths (world sb))))) \<and>
   fst (fetch_codeowners E r tok s) =
     Inr (hit_content (find hit (probe_all E r tok codeowners_paths (world s)))) \<and>
   trace (snd (fetch_codeowners E r tok s)) =
     trace s @ map (GetFileContent r)
       (take (Suc (length (takeWhile (\<lambda>x. \<not> hit x)
          (probe_all E r tok codeowners_paths (world s))))) codeowners_paths) \<and>
   codeowners_paths = [''.github/CODEOWNERS'', ''CODEOWNERS'', ''docs/CODEOWNERS'']"
proof (intro conjI impI)
  show "\<exists>v s'. fetch_pr_reviews E r n tok s = (Inr v, s')"
    unfolding fetch_pr_reviews_def by (rule http_fetch_total)
  show "\<exists>v s'. fetch_pr_files E r n tok s = (Inr v, s')"
    unfolding fetch_pr_files_def by (rule http_fetch_total)
  show "fst (fetch_codeowners E r tok s) =
     Inr (hit_content (find hit (probe_all E r tok codeowners_paths (world s))))"
    and "trace (snd (fetch_codeowners E r tok s)) =
     trace s @ map (GetFileContent r)
       (take (Suc (length (takeWhile (\<lambda>x. \<not> hit x)
          (probe_all E r tok codeowners_paths (world s))))) codeowners_paths)"
    using fetch_codeowners_first_hit [of E r tok s] by simp_all
  show "codeowners_paths = [''.github/CODEOWNERS'', ''CODEOWNERS'', ''docs/CODEOWNERS'']"
    by (simp add: codeowners_paths_def)
next
  assume "sub_fetch_fails E (ReviewsEndpoint r n) tok (world s)"
  then show "fst (fetch_pr_reviews E r n tok s) = Inr (JList [])"
    unfolding fetch_pr_reviews_def by (rule http_fetch_fails)
next
  assume "sub_fetch_fails E (FilesEndpoint r n) tok (world s)"
  then show "fst (fetch_pr_files E r n tok s) = Inr (JList [])"
    unfolding fetch_pr_files_def by (rule http_fetch_fails)
next
  assume "mapping_or_falsy (dget d ''user'') \<and> truthy (dget d ''number'') \<and>
    fetch_pr_reviews E r (dget d ''number'') tok s = (Inr rv, sa) \<and>
    fetch_pr_files E r (dget d ''number'') tok sa = (Inr fs, sb) \<and>
    files_payload_ok fs"
  then show "\<exists>ev. build_event_data E r (JDict d) tok s =
               (Inr ev, snd (fetch_codeowners E r tok sb)) \<and>
         reviews ev = Some (or_empty_list rv) \<and>
         files ev = Some (or_empty_list fs) \<and>
         (sub_fetch_fails E (ReviewsEndpoint r (dget d ''number'')) tok (world s) \<longrightarrow>
            reviews ev = Some (JList [])) \<and>
         (sub_fetch_fails E (FilesEndpoint r (dget d ''number'')) tok (world sa) \<longrightarrow>
            files ev = Some (JList []) \<and> changed_files ev = Some []) \<and>
         codeowners_content ev =
           hit_content (find hit (probe_all E r tok codeowners_paths (world sb)))"
    by (elim conjE) (rule build_event_data_tolerant)
qed


theorem build_event_data_fault_tolerant_witness:
  "sub_fetch_fails no_session_env (ReviewsEndpoint ''octo/demo'' (JInt 1)) None (world st0) \<and>
   fst (fetch_pr_reviews no_session_env ''octo/demo'' (JInt 1) None st0) = Inr (JList []) \<and>
   (\<exists>ev. fst (build_event_data no_session_env ''octo/demo''
               (JDict [(''number'', JInt 1), (''title'', JStr ''one'')]) None st0) = Inr ev \<and>
      reviews ev = Some (JList []) \<and> files ev = Some (JList []) \<and>
      changed_files ev = Some [] \<and> codeowners_content ev = Some ''* @octo'') \<and>
   fst (fetch_codeowners no_session_env ''octo/demo'' None st0) = Inr (Some ''* @octo'') \<and>
   trace (snd (fetch_codeowners no_session_env ''octo/demo'' None st0)) =
     [GetFileContent ''octo/demo'' ''.github/CODEOWNERS'',
      GetFileContent ''octo/demo'' ''CODEOWNERS'']"
proof -
  note defs = no_session_env_def demo_defs model_defs
  let ?d = "[(''number'', JInt 1), (''title'', JStr ''one'')]"
  let ?sa = "\<lparr>trace = [GetAuthHeaders, GetSession], world = 2::nat\<rparr>"
  let ?sb = "\<lparr>trace = [GetAuthHeaders, GetSession, GetAuthHeaders, GetSession], world = 4::nat\<rparr>"
  note inst = build_event_data_fault_tolerant [where E = no_session_env and r = "''octo/demo''"
      and n = "JInt 1" and tok = None and s = st0 and d = ?d and rv = "JList []" and sa = ?sa
      and fs = "JList []" and sb = ?sb]
  have fails: "sub_fetch_fails no_session_env (ReviewsEndpoint ''octo/demo'' (JInt 1)) None (world st0)"
    by (simp add: sub_fetch_fails_def defs)
  have fails_rv: "sub_fetch_fails no_session_env
      (ReviewsEndpoint ''octo/demo'' (dget ?d ''number'')) None (world st0)"
    and fails_fs: "sub_fetch_fails no_session_env
      (FilesEndpoint ''octo/demo'' (dget ?d ''number'')) None (world ?sa)"
    by (simp_all add: sub_fetch_fails_def defs)
  have empty: "fst (fetch_pr_reviews no_session_env ''octo/demo'' (JInt 1) None st0) = Inr (JList [])"
    using inst [THEN conjunct2, THEN conjunct2, THEN conjunct1, THEN mp, OF fails] .
  have user: "mapping_or_falsy (dget ?d ''user'')" and number: "truthy (dget ?d ''number'')"
    by (simp_all add: dget_def)
  have rv: "fetch_pr_reviews no_session_env ''octo/demo'' (dget ?d ''number'') None st0 =
      (Inr (JList []), ?sa)"
    by (simp add: defs)
  have fs: "fetch_pr_files no_session_env ''octo/demo'' (dget ?d ''number'') None ?sa =
      (Inr (JList []), ?sb)"
    by (simp add: defs)
  have ok: "files_payload_ok (JList [])" by simp
  from inst [THEN conjunct2, THEN conjunct2, THEN conjunct2, THEN conjunct2, THEN conjunct1,
      THEN mp, OF conjI [OF user conjI [OF number conjI [OF rv conjI [OF fs ok]]]]]
  obtain ev where ev: "build_event_data no_session_env ''octo/demo'' (JDict ?d) None st0 =
        (Inr ev, snd (fetch_codeowners no_session_env ''octo/demo'' None ?sb))"
      "sub_fetch_fails no_session_env (ReviewsEndpoint ''octo/demo'' (dget ?d ''number'')) None
         (world st0) \<longrightarrow> reviews ev = Some (JList [])"
      "sub_fetch_fails no_session_env (FilesEndpoint ''octo/demo'' (dget ?d ''number'')) None
         (world ?sa) \<longrightarrow> files ev = Some (JList []) \<and> changed_files ev = Some []"
      "codeowners_content ev =
         hit_content (find hit (probe_all no_session_env ''octo/demo'' None codeowners_paths
           (world ?sb)))"
    by blast
  from ev(2) fails_rv have reviews: "reviews ev = Some (JList [])" by blast
  from ev(3) fails_fs have files: "files ev = Some (JList [])" "changed_files ev = Some []"
    by blast+
  from ev(4) have owners: "codeowners_content ev = Some ''* @octo''"
    by (simp add: defs)
  from ev(1) reviews files owners
  have built: "\<exists>ev. fst (build_event_data no_session_env ''octo/demo'' (JDict ?d) None st0) = Inr ev \<and>
      reviews ev = Some (JList []) \<and> files ev = Some (JList []) \<and>
      changed_files ev = Some [] \<and> codeowners_content ev = Some ''* @octo''"
    by (intro exI [of _ ev]) simp
  have hit: "fst (fetch_codeowners no_session_env ''octo/demo'' None st0) = Inr (Some ''* @octo'')"
    using inst [THEN conjunct2, THEN conjunct2, THEN conjunct2, THEN conjunct2, THEN conjunct2,
      THEN conjunct1]
    by (simp add: defs)
  have stops: "trace (snd (fetch_codeowners no_session_env ''octo/demo'' None st0)) =
      [GetFileContent ''octo/demo'' ''.github/CODEOWNERS'',
       GetFileContent ''octo/demo'' ''CODEOWNERS'']"
    using inst [THEN conjunct2, THEN conjunct2, THEN conjunct2, THEN conjunct2, THEN conjunct2,
      THEN conjunct2, THEN conjunct1]
    by (simp add: defs)
  from fails empty built hit stops show ?thesis
    by (intro conjI)
qed


end
